theory Spec2Isabelle
  imports Complex_Main "HOL-Library.Monad_Syntax"
begin

section \<open>Tensor entries\<close>

text \<open>
  The tensors of the program hold IEEE single-precision floats.  An entry is modelled
  by its class: not-a-number, the two infinities, or a finite value, taken as a real.
  The special values follow IEEE arithmetic as torch applies it.  A finite result
  overflows to the infinity of its sign when its magnitude reaches
  \<open>2^128 - 2^103\<close>, the least value that rounds to infinity; below that the
  operations are the exact ones, so rounding to the nearest float, underflow and the
  sign of zero are left out of the model.
\<close>

datatype fl = NaN | NInf | Fin real | PInf

fun isfinite :: "fl \<Rightarrow> bool" where
  "isfinite (Fin _) = True"
| "isfinite _ = False"

fun is_nan :: "fl \<Rightarrow> bool" where
  "is_nan NaN = True"
| "is_nan _ = False"

definition overflow_threshold :: real where
  "overflow_threshold = 340282356779733661637539395458142568448"

definition round_fl :: "real \<Rightarrow> fl" where
  "round_fl r = (if overflow_threshold \<le> r then PInf
                else if r \<le> - overflow_threshold then NInf else Fin r)"

fun fadd :: "fl \<Rightarrow> fl \<Rightarrow> fl" where
  "fadd NaN _ = NaN"
| "fadd _ NaN = NaN"
| "fadd PInf NInf = NaN"
| "fadd NInf PInf = NaN"
| "fadd PInf _ = PInf"
| "fadd _ PInf = PInf"
| "fadd NInf _ = NInf"
| "fadd _ NInf = NInf"
| "fadd (Fin a) (Fin b) = round_fl (a + b)"

fun fneg :: "fl \<Rightarrow> fl" where
  "fneg NaN = NaN"
| "fneg NInf = PInf"
| "fneg PInf = NInf"
| "fneg (Fin a) = Fin (- a)"

definition fsub :: "fl \<Rightarrow> fl \<Rightarrow> fl" where
  "fsub a b = fadd a (fneg b)"

definition inf_signed :: "bool \<Rightarrow> fl" where
  "inf_signed positive = (if positive then PInf else NInf)"

fun fmul :: "fl \<Rightarrow> fl \<Rightarrow> fl" where
  "fmul NaN _ = NaN"
| "fmul _ NaN = NaN"
| "fmul (Fin a) (Fin b) = round_fl (a * b)"
| "fmul (Fin a) PInf = (if a = 0 then NaN else inf_signed (0 < a))"
| "fmul (Fin a) NInf = (if a = 0 then NaN else inf_signed (a < 0))"
| "fmul PInf (Fin b) = (if b = 0 then NaN else inf_signed (0 < b))"
| "fmul NInf (Fin b) = (if b = 0 then NaN else inf_signed (b < 0))"
| "fmul PInf PInf = PInf"
| "fmul NInf NInf = PInf"
| "fmul PInf NInf = NInf"
| "fmul NInf PInf = NInf"

fun fdiv :: "fl \<Rightarrow> fl \<Rightarrow> fl" where
  "fdiv NaN _ = NaN"
| "fdiv _ NaN = NaN"
| "fdiv (Fin a) (Fin b) =
     (if b = 0 then (if a = 0 then NaN else inf_signed (0 < a)) else round_fl (a / b))"
| "fdiv (Fin a) _ = Fin 0"
| "fdiv PInf (Fin b) = inf_signed (0 \<le> b)"
| "fdiv NInf (Fin b) = inf_signed (b < 0)"
| "fdiv _ _ = NaN"

fun flt :: "fl \<Rightarrow> fl \<Rightarrow> bool" where
  "flt NaN _ = False"
| "flt _ NaN = False"
| "flt _ NInf = False"
| "flt NInf _ = True"
| "flt PInf _ = False"
| "flt _ PInf = True"
| "flt (Fin a) (Fin b) = (a < b)"

fun fle :: "fl \<Rightarrow> fl \<Rightarrow> bool" where
  "fle NaN _ = False"
| "fle _ NaN = False"
| "fle NInf _ = True"
| "fle _ PInf = True"
| "fle _ NInf = False"
| "fle PInf _ = False"
| "fle (Fin a) (Fin b) = (a \<le> b)"

definition feq :: "fl \<Rightarrow> fl \<Rightarrow> bool" where
  "feq a b = (\<not> is_nan a \<and> a = b)"

text \<open>\<^verbatim>\<open>torch.minimum\<close> and \<^verbatim>\<open>Tensor.max\<close> propagate not-a-number.\<close>

definition fminimum :: "fl \<Rightarrow> fl \<Rightarrow> fl" where
  "fminimum a b = (if is_nan a \<or> is_nan b then NaN else if fle a b then a else b)"

definition fmaximum :: "fl \<Rightarrow> fl \<Rightarrow> fl" where
  "fmaximum a b = (if is_nan a \<or> is_nan b then NaN else if fle a b then b else a)"

definition fsum :: "fl list \<Rightarrow> fl" where
  "fsum xs = foldr fadd xs (Fin 0)"

definition of_bool_fl :: "bool \<Rightarrow> fl" where
  "of_bool_fl b = Fin (if b then 1 else 0)"

definition of_int_fl :: "int \<Rightarrow> fl" where
  "of_int_fl n = Fin (of_int n)"

section \<open>Tensors\<close>

text \<open>
  A slice of shape M x M of a batched tensor is its entry function on the indices
  below M; the side M is \<open>max_n_nodes\<close> of the state, the node count the batch is
  padded to.  A route is a row of node indices padded with -1, a list.
\<close>

type_synonym 'a mat = "nat \<Rightarrow> nat \<Rightarrow> 'a"

definition eye :: "bool mat" where
  "eye = (\<lambda>i j. i = j)"

text \<open>
  \<^verbatim>\<open>transit_times = (1 - torch.eye(M)); transit_times[transit_times > 0] = float('inf')\<close>,
  built by the constructor and by \<^verbatim>\<open>_clear_routes_helper\<close> alike.
\<close>

definition one_minus_eye :: "fl mat" where
  "one_minus_eye = (\<lambda>i j. fsub (Fin 1) (of_bool_fl (eye i j)))"

definition initial_transit_times :: "fl mat" where
  "initial_transit_times = (\<lambda>i j. if flt (Fin 0) (one_minus_eye i j) then PInf else one_minus_eye i j)"

definition zeros_long :: "int mat" where
  "zeros_long = (\<lambda>i j. 0)"

definition msum :: "nat \<Rightarrow> fl mat \<Rightarrow> fl" where
  "msum M A = fsum (map (\<lambda>i. fsum (map (\<lambda>j. A i j) [0..<M])) [0..<M])"

definition n_stops :: "int list \<Rightarrow> nat" where
  "n_stops route = length (filter (\<lambda>x. - 1 < x) route)"

datatype error = AssertionError string | IndexError | RuntimeError | TypeError | ValueError

text \<open>Indexing a dimension of size n: a negative index counts from the end.\<close>

definition tensor_index :: "nat \<Rightarrow> int \<Rightarrow> error + nat" where
  "tensor_index n i =
     (if 0 \<le> i \<and> i < int n then Inr (nat i)
      else if - int n \<le> i \<and> i < 0 then Inr (nat (int n + i))
      else Inl IndexError)"

section \<open>The batched network state\<close>

text \<open>
  \<^verbatim>\<open>RouteGenBatchState\<close> keeps \<^verbatim>\<open>graph_data\<close> and \<^verbatim>\<open>extra_data\<close>, two batches with one
  entry per scenario, the list \<^verbatim>\<open>_finished_routes\<close> and the flag
  \<^verbatim>\<open>symmetric_routes\<close>.  The model keeps one record per scenario with the fields of
  both batches and the scenario's finished routes.  The memoised
  \<^verbatim>\<open>shortest_path_sequences\<close> is one tensor for the batch (empty until first used).
  The fields \<^verbatim>\<open>norm_node_features\<close> and \<^verbatim>\<open>fixed_routes\<close>, which no operation below
  reads, are left out.
\<close>

record scenario =
  drive_times :: "fl mat"
  demand :: "fl mat"
  nexts :: "int mat"
  base_valid_terms_mat :: "bool mat"
  valid_terms_mat :: "bool mat"
  mean_stop_time :: fl
  transfer_time_s :: fl
  total_route_time :: fl
  n_routes_to_plan :: int
  min_route_len :: int
  max_route_len :: int
  n_nodes_in_scenario :: nat
  directly_connected :: "bool mat"
  route_mat :: "fl mat"
  transit_times :: "fl mat"
  has_path :: "bool mat"
  current_routes :: "int list"
  current_route_time :: fl
  current_route_times_from_start :: "fl list"
  route_nexts :: "int mat"
  n_transfers :: "int mat"
  cost_weights :: "string \<rightharpoonup> fl"
  finished_routes :: "int list list"

record state =
  symmetric_routes :: bool
  shortest_path_sequences :: "(int list mat) list option"
  scenarios :: "scenario list"

definition batch_size :: "state \<Rightarrow> nat" where
  "batch_size s = length (scenarios s)"

text \<open>\<^verbatim>\<open>max(self.n_nodes)\<close>; Python's \<^verbatim>\<open>max\<close> of an empty batch raises, here it is 0.\<close>

definition max_n_nodes :: "state \<Rightarrow> nat" where
  "max_n_nodes s = foldr max (map n_nodes_in_scenario (scenarios s)) 0"

definition n_finished_routes :: "scenario \<Rightarrow> int" where
  "n_finished_routes sc = int (length (finished_routes sc))"

definition n_routes_left_to_plan :: "scenario \<Rightarrow> int" where
  "n_routes_left_to_plan sc = n_routes_to_plan sc - n_finished_routes sc"

definition is_done :: "scenario \<Rightarrow> bool" where
  "is_done sc = (n_routes_left_to_plan sc = 0)"

definition current_route_n_stops :: "scenario \<Rightarrow> nat" where
  "current_route_n_stops sc = n_stops (current_routes sc)"

definition has_current_route :: "scenario \<Rightarrow> bool" where
  "has_current_route sc = (0 < current_route_n_stops sc)"

text \<open>The property \<^verbatim>\<open>total_route_time\<close>: finished routes plus the route in progress.\<close>

definition total_route_time_property :: "scenario \<Rightarrow> fl" where
  "total_route_time_property sc = fadd (total_route_time sc) (current_route_time sc)"

subsection \<open>Clearing\<close>

text \<open>
  \<^verbatim>\<open>_clear_routes_helper(batch_index)\<close>: the scenarios of \<open>batch_index\<close> (all of them
  when it is None) are reset in place; the assignments to slices of the existing
  tensors keep their shapes, so a cleared route row keeps its width.
\<close>

definition clear_scenario :: "scenario \<Rightarrow> scenario" where
  "clear_scenario sc =
     (let directly_connected' = eye;
          transit_times' = initial_transit_times
      in sc\<lparr>finished_routes := [],
            valid_terms_mat := base_valid_terms_mat sc,
            total_route_time := Fin 0,
            directly_connected := directly_connected',
            route_mat := transit_times',
            transit_times := transit_times',
            has_path := directly_connected',
            current_routes := map (\<lambda>_. - 1) (current_routes sc),
            current_route_time := Fin 0,
            current_route_times_from_start := map (\<lambda>_. Fin 0) (current_route_times_from_start sc),
            route_nexts := zeros_long,
            n_transfers := zeros_long\<rparr>)"

definition batch_indices :: "state \<Rightarrow> nat list" where
  "batch_indices s = [0..<batch_size s]"

definition clear_routes_helper :: "state \<Rightarrow> nat list option \<Rightarrow> state" where
  "clear_routes_helper s batch_index =
     (let idx = (case batch_index of None \<Rightarrow> batch_indices s | Some ix \<Rightarrow> ix)
      in s\<lparr>scenarios := map (\<lambda>bi. if bi \<in> set idx then clear_scenario (scenarios s ! bi)
                                     else scenarios s ! bi) [0..<batch_size s]\<rparr>)"

definition clear_routes :: "state \<Rightarrow> state" where
  "clear_routes s = clear_routes_helper s None"

definition reset_dones :: "state \<Rightarrow> state" where
  "reset_dones s =
     (let batch_index = filter (\<lambda>bi. is_done (scenarios s ! bi)) (batch_indices s)
      in if 0 < length batch_index then clear_routes_helper s (Some batch_index) else s)"

section \<open>The graph-algorithm library\<close>

text \<open>
  The functions imported from \<^verbatim>\<open>torch_utils\<close> are not among the sources.  The engine is
  modelled over any implementation of them: a record of functions, each applied to
  one scenario's slice (the library works on every scenario of a batch alike), with
  the side M of the slice as its first argument.
  \<^item> \<open>floyd_warshall M route_mat\<close> gives the next-hop and the distance matrix;
  \<^item> \<open>reconstruct_all_paths M nexts\<close> gives the stop sequence of every pair, padded
    with -1, and its length;
  \<^item> \<open>get_route_edge_matrix M routes drive_times mean_stop_time symmetric\<close> gives the
    direct-ride time matrix of a scenario's routes;
  \<^item> \<open>get_route_leg_times M routes drive_times mean_stop_time\<close> gives the leg times
    of each route, \<open>get_route_leg_times_2d\<close> those of the call that passes the
    current routes without a routes dimension.
\<close>

record torch_utils =
  floyd_warshall :: "nat \<Rightarrow> fl mat \<Rightarrow> int mat \<times> fl mat"
  reconstruct_all_paths :: "nat \<Rightarrow> int mat \<Rightarrow> int list mat \<times> int mat"
  get_route_edge_matrix :: "nat \<Rightarrow> int list list \<Rightarrow> fl mat \<Rightarrow> fl \<Rightarrow> bool \<Rightarrow> fl mat"
  get_route_leg_times :: "nat \<Rightarrow> int list list \<Rightarrow> fl mat \<Rightarrow> fl \<Rightarrow> fl list list"
  get_route_leg_times_2d :: "nat \<Rightarrow> int list \<Rightarrow> fl mat \<Rightarrow> fl \<Rightarrow> fl list"

text \<open>
  Modelled from the spec: \<^verbatim>\<open>torch_utils.get_variable_slice_mask\<close> is not among the
  sources; from its keyword arguments at the two call sites ("insert the second parts
  at the appropriate masks") it marks, in a row of the given width, the positions
  from \<open>froms\<close> up to but excluding \<open>tos\<close>.
\<close>

definition get_variable_slice_mask :: "nat \<Rightarrow> nat \<Rightarrow> nat \<Rightarrow> bool list" where
  "get_variable_slice_mask width froms tos = map (\<lambda>l. froms \<le> l \<and> l < tos) [0..<width]"

text \<open>
  Modelled from the spec: \<^verbatim>\<open>torch_utils.get_batch_tensor_from_routes\<close> is not among
  the sources; it assembles the "padded route array" of section 4.5, every route
  padded with -1 to the longest route of the batch and every scenario padded with
  empty routes to the largest route count.
\<close>

definition get_batch_tensor_from_routes :: "int list list list \<Rightarrow> int list list list" where
  "get_batch_tensor_from_routes routes =
     (let n_routes = foldr max (map length routes) 0;
          route_len = foldr max (map length (concat routes)) 0;
          pad = (\<lambda>r. r @ replicate (route_len - length r) (- 1))
      in map (\<lambda>rs. map pad rs @ replicate (n_routes - length rs) (replicate route_len (- 1)))
           routes)"

section \<open>Results of operations that mutate the state\<close>

text \<open>
  The operations mutate the state object in place.  A call that raises leaves the
  object as it was at the raise: the result is then the error with that state.
\<close>

type_synonym 'a result = "(error \<times> state) + 'a"

fun collect :: "(error + 'a) list \<Rightarrow> error + 'a list" where
  "collect [] = Inr []"
| "collect (Inl e # _) = Inl e"
| "collect (Inr x # xs) = (case collect xs of Inl e \<Rightarrow> Inl e | Inr ys \<Rightarrow> Inr (x # ys))"

section \<open>Route-derivation refresh\<close>

definition transpose_mat :: "'a mat \<Rightarrow> 'a mat" where
  "transpose_mat A = (\<lambda>i j. A j i)"

definition get_total_route_time :: "torch_utils \<Rightarrow> nat \<Rightarrow> bool \<Rightarrow> scenario \<Rightarrow> int list list \<Rightarrow> fl" where
  "get_total_route_time lib M symmetric sc batch_routes =
     (let leg_times = get_route_leg_times lib M batch_routes (drive_times sc) (mean_stop_time sc);
          route_time = fsum (map fsum leg_times)
      in if symmetric then
           (let transpose_dtm = transpose_mat (drive_times sc);
                return_leg_times =
                  get_route_leg_times lib M batch_routes transpose_dtm (mean_stop_time sc)
            in fadd route_time (fsum (map fsum return_leg_times)))
         else route_time)"

text \<open>
  \<^verbatim>\<open>torch.where(self.route_mat < float('inf'))\<close> lists the finite entries of the batch
  in row-major order; \<open>finite_entries\<close> is the part of one scenario.
\<close>

definition finite_entries :: "nat \<Rightarrow> fl mat \<Rightarrow> (nat \<times> nat) list" where
  "finite_entries M A =
     concat (map (\<lambda>i. map (\<lambda>j. (i, j)) (filter (\<lambda>j. flt (A i j) PInf) [0..<M])) [0..<M])"

text \<open>
  \<^verbatim>\<open>torch.unique(batch_idxs, return_counts=True)\<close> counts the entries of each scenario
  that has any; a scenario without a finite entry has no count.
\<close>

definition unique_counts :: "(nat \<times> nat) list list \<Rightarrow> nat list" where
  "unique_counts entries = map length (filter (\<lambda>e. e \<noteq> []) entries)"

definition set_true :: "bool mat \<Rightarrow> (nat \<times> nat) list \<Rightarrow> bool mat" where
  "set_true A idxs = (\<lambda>i j. A i j \<or> (i, j) \<in> set idxs)"

text \<open>
  The loop over \<open>bi\<close> takes the next count and that many index pairs for each
  scenario in turn; \<^verbatim>\<open>counts[0]\<close> of an exhausted list raises.  The matrices already
  marked are kept with the error.
\<close>

fun mark_directly_connected ::
  "bool mat list \<Rightarrow> nat list \<Rightarrow> (nat \<times> nat) list \<Rightarrow> (error \<times> bool mat list) + bool mat list" where
  "mark_directly_connected [] counts edge_idxs = Inr []"
| "mark_directly_connected (dc # dcs) [] edge_idxs = Inl (IndexError, dc # dcs)"
| "mark_directly_connected (dc # dcs) (count # counts) edge_idxs =
     (let dc' = set_true dc (take count edge_idxs)
      in case mark_directly_connected dcs counts (drop count edge_idxs) of
           Inl (e, rest) \<Rightarrow> Inl (e, dc' # rest)
         | Inr rest \<Rightarrow> Inr (dc' # rest))"

definition bmm :: "nat \<Rightarrow> nat mat \<Rightarrow> nat mat \<Rightarrow> nat mat" where
  "bmm M A B = (\<lambda>i j. sum_list (map (\<lambda>k. A i k * B k j) [0..<M]))"

definition to_float :: "bool mat \<Rightarrow> nat mat" where
  "to_float A = (\<lambda>i j. if A i j then 1 else 0)"

definition to_bool :: "nat mat \<Rightarrow> bool mat" where
  "to_bool A = (\<lambda>i j. A i j \<noteq> 0)"

text \<open>
  \<^verbatim>\<open>nodes_are_connected\<close>: products of 0/1 matrices count walks; the model counts in
  the naturals.
\<close>

definition nodes_are_connected :: "nat \<Rightarrow> bool mat \<Rightarrow> nat \<Rightarrow> bool mat" where
  "nodes_are_connected M dircon n =
     (let dircon_float = to_float dircon
      in to_bool (((\<lambda>connected. bmm M connected dircon_float) ^^ n) dircon_float))"

definition fgt0 :: "fl mat \<Rightarrow> bool mat" where
  "fgt0 A = (\<lambda>i j. flt (Fin 0) (A i j))"

definition update_valid_terms_mat :: "nat \<Rightarrow> bool \<Rightarrow> bool \<Rightarrow> bool \<Rightarrow> scenario \<Rightarrow> bool mat" where
  "update_valid_terms_mat M symmetric only_routes_with_demand_are_valid invalid_directly_connected sc =
     (let float_is_demand = to_float (fgt0 (demand sc));
          vtm1 =
            (if only_routes_with_demand_are_valid then
               (let connected_T = to_float (transpose_mat
                      (nodes_are_connected M (directly_connected sc) 2));
                    valid_upstream = to_bool (bmm M float_is_demand connected_T);
                    valid_downstream = to_bool (bmm M connected_T float_is_demand)
                in (\<lambda>i j. valid_terms_mat sc i j \<or> valid_upstream i j \<or> valid_downstream i j))
             else valid_terms_mat sc);
          vtm2 = (if invalid_directly_connected
                  then (\<lambda>i j. vtm1 i j \<and> \<not> directly_connected sc i j) else vtm1)
      in if symmetric then (\<lambda>i j. vtm2 i j \<and> transpose_mat vtm2 i j) else vtm2)"

text \<open>
  The last step of the refresh for one scenario: the shortest-path solver over
  \<open>route_mat\<close>, the transfer counts from the path lengths, and the transfer penalties
  added to the transit times.
\<close>

definition update_transit :: "torch_utils \<Rightarrow> nat \<Rightarrow> scenario \<Rightarrow> scenario" where
  "update_transit lib M sc =
     (let (nexts', transit_times') = floyd_warshall lib M (route_mat sc);
          has_path' = (\<lambda>i j. flt (transit_times' i j) PInf);
          path_lens = snd (reconstruct_all_paths lib M nexts');
          n_transfers' = (\<lambda>i j. if \<not> has_path' i j then 0 else max (path_lens i j - 2) 0);
          transfer_penalties = (\<lambda>i j. fmul (of_int_fl (n_transfers' i j)) (transfer_time_s sc))
      in sc\<lparr>route_nexts := nexts',
            transit_times := (\<lambda>i j. fadd (transit_times' i j) (transfer_penalties i j)),
            has_path := has_path',
            n_transfers := n_transfers'\<rparr>)"

text \<open>
  \<^verbatim>\<open>torch.minimum(self.route_mat, new_route_mat)\<close> on the M x M entries of the
  scenario; the entry function is left as it was outside them.
\<close>

definition merge_route_mat :: "torch_utils \<Rightarrow> nat \<Rightarrow> bool \<Rightarrow> scenario \<Rightarrow> int list list \<Rightarrow> scenario" where
  "merge_route_mat lib M symmetric sc update_routes =
     (let new_route_mat = get_route_edge_matrix lib M update_routes (drive_times sc)
                            (mean_stop_time sc) symmetric
      in sc\<lparr>route_mat := (\<lambda>i j. if i < M \<and> j < M
                                then fminimum (route_mat sc i j) (new_route_mat i j)
                                else route_mat sc i j)\<rparr>)"

text \<open>
  \<^verbatim>\<open>_update_on_routes(update_routes, only_routes_with_demand_are_valid,
  invalid_directly_connected)\<close> on a tensor \<open>update_routes\<close> of shape (batch, n_routes,
  route_len).  A tensor with another batch size than the state's does not fit the
  state's tensors: a RuntimeError.
\<close>

definition update_on_routes ::
  "torch_utils \<Rightarrow> state \<Rightarrow> int list list list \<Rightarrow> bool \<Rightarrow> bool \<Rightarrow> state result" where
  "update_on_routes lib s update_routes only_routes_with_demand_are_valid invalid_directly_connected =
     (if length update_routes \<noteq> batch_size s then Inl (RuntimeError, s)
      else
        let M = max_n_nodes s;
            scs1 = map2 (merge_route_mat lib M (symmetric_routes s)) (scenarios s) update_routes;
            entries = map (\<lambda>sc. finite_entries M (route_mat sc)) scs1;
            counts = unique_counts entries;
            edge_idxs = concat entries
        in case mark_directly_connected (map directly_connected scs1) counts edge_idxs of
             Inl (e, dcs) \<Rightarrow>
               Inl (e, s\<lparr>scenarios := map2 (\<lambda>sc dc. sc\<lparr>directly_connected := dc\<rparr>) scs1 dcs\<rparr>)
           | Inr dcs \<Rightarrow>
               let scs2 = map2 (\<lambda>sc dc. sc\<lparr>directly_connected := dc\<rparr>) scs1 dcs;
                   scs3 = map (\<lambda>sc. sc\<lparr>valid_terms_mat :=
                            update_valid_terms_mat M (symmetric_routes s)
                              only_routes_with_demand_are_valid invalid_directly_connected sc\<rparr>)
                            scs2
               in Inr (s\<lparr>scenarios := map (update_transit lib M) scs3\<rparr>))"

subsection \<open>Adding and replacing routes\<close>

text \<open>
  \<^verbatim>\<open>add_new_routes\<close> on a tensor of new routes (a list of routes is first padded into
  one by \<open>get_batch_tensor_from_routes\<close>).  A route with fewer than two stops is
  skipped with a warning; of any other route the first \<open>length\<close> entries are kept.
\<close>

definition add_finished_routes :: "scenario \<Rightarrow> int list list \<Rightarrow> scenario" where
  "add_finished_routes sc new_routes =
     sc\<lparr>finished_routes := finished_routes sc @
          map (\<lambda>route. take (n_stops route) route) (filter (\<lambda>route. \<not> n_stops route < 2) new_routes)\<rparr>"

definition add_new_routes ::
  "torch_utils \<Rightarrow> state \<Rightarrow> int list list list \<Rightarrow> bool \<Rightarrow> bool \<Rightarrow> state result" where
  "add_new_routes lib s batch_new_routes only_routes_with_demand_are_valid invalid_directly_connected =
     (if length batch_new_routes < batch_size s
      then Inl (IndexError,
             s\<lparr>scenarios := map2 add_finished_routes (scenarios s) batch_new_routes @
                              drop (length batch_new_routes) (scenarios s)\<rparr>)
      else
        let M = max_n_nodes s;
            scs1 = map2 add_finished_routes (scenarios s) batch_new_routes;
            scs2 = map2 (\<lambda>sc new_routes. sc\<lparr>total_route_time :=
                      fadd (total_route_time sc)
                        (get_total_route_time lib M (symmetric_routes s) sc new_routes)\<rparr>)
                     scs1 batch_new_routes
        in update_on_routes lib (s\<lparr>scenarios := scs2\<rparr>) batch_new_routes
             only_routes_with_demand_are_valid invalid_directly_connected)"

definition replace_routes ::
  "torch_utils \<Rightarrow> state \<Rightarrow> int list list list \<Rightarrow> bool \<Rightarrow> bool \<Rightarrow> state result" where
  "replace_routes lib s batch_new_routes only_routes_with_demand_are_valid invalid_directly_connected =
     add_new_routes lib (clear_routes_helper s None) batch_new_routes
       only_routes_with_demand_are_valid invalid_directly_connected"

section \<open>Extending the current route by a shortest path\<close>

definition get_shortest_path_sequences :: "torch_utils \<Rightarrow> state \<Rightarrow> (int list mat) list \<times> state" where
  "get_shortest_path_sequences lib s =
     (case shortest_path_sequences s of
        Some path_seqs \<Rightarrow> (path_seqs, s)
      | None \<Rightarrow>
          (let path_seqs = map (\<lambda>sc. fst (reconstruct_all_paths lib (max_n_nodes s) (nexts sc)))
                             (scenarios s)
           in (path_seqs, s\<lparr>shortest_path_sequences := Some path_seqs\<rparr>)))"

definition row_get :: "int list \<Rightarrow> int \<Rightarrow> error + int" where
  "row_get row i = (case tensor_index (length row) i of Inl e \<Rightarrow> Inl e | Inr k \<Rightarrow> Inr (row ! k))"

text \<open>
  \<^verbatim>\<open>path_seqs[self.batch_indices, path_indices[:, 0], path_indices[:, 1]]\<close> for one
  scenario, then padded with -1 to the width of the current routes.
\<close>

definition gather_new_parts :: "nat \<Rightarrow> int list mat \<Rightarrow> int \<times> int \<Rightarrow> nat \<Rightarrow> error + int list" where
  "gather_new_parts M path_seqs uv new_len =
     (case tensor_index M (fst uv) of Inl e \<Rightarrow> Inl e
      | Inr u \<Rightarrow>
         (case tensor_index M (snd uv) of Inl e \<Rightarrow> Inl e
          | Inr v \<Rightarrow>
             (let new_parts = path_seqs u v;
                  n_pad = new_len - length new_parts
              in Inr (new_parts @ replicate n_pad (- 1)))))"

text \<open>The boolean masks of one scenario, named as in the source.\<close>

record action_masks =
  routes_are_done :: bool
  starting :: bool
  extending :: bool
  ends_at_cur_start :: bool
  starts_at_cur_end :: bool

definition get_action_masks :: "scenario \<Rightarrow> int \<times> int \<Rightarrow> error + action_masks" where
  "get_action_masks sc uv =
     (case row_get (current_routes sc) 0 of Inl e \<Rightarrow> Inl e
      | Inr first_node \<Rightarrow>
         (case row_get (current_routes sc) (int (current_route_n_stops sc) - 1) of Inl e \<Rightarrow> Inl e
          | Inr last_nodes \<Rightarrow>
             (let done = (fst uv = - 1);
                  start = (first_node = - 1 \<and> \<not> done)
              in Inr \<lparr>routes_are_done = done,
                      starting = start,
                      extending = (\<not> start \<and> \<not> done),
                      ends_at_cur_start = (snd uv = first_node),
                      starts_at_cur_end = (fst uv = last_nodes)\<rparr>)))"

definition valid_action :: "action_masks \<Rightarrow> bool" where
  "valid_action m = (starting m \<or> ends_at_cur_start m \<or> starts_at_cur_end m \<or> routes_are_done m)"

definition chose_prev :: "action_masks \<Rightarrow> bool" where
  "chose_prev m = (extending m \<and> ends_at_cur_start m)"

definition chose_next :: "action_masks \<Rightarrow> bool" where
  "chose_next m = (extending m \<and> \<not> ends_at_cur_start m)"

definition b2i :: "bool \<Rightarrow> int" where
  "b2i b = (if b then 1 else 0)"

definition first_parts :: "action_masks \<Rightarrow> int list \<Rightarrow> int list \<Rightarrow> int list" where
  "first_parts m new_parts cur =
     map2 (\<lambda>a c. a * b2i (starting m \<or> chose_prev m) + c * b2i (chose_next m \<or> routes_are_done m))
       new_parts cur"

text \<open>The second parts, with their first node cut off (\<^verbatim>\<open>second_parts[..., 1:]\<close>).\<close>

definition second_parts :: "action_masks \<Rightarrow> int list \<Rightarrow> int list \<Rightarrow> int list" where
  "second_parts m new_parts cur =
     tl (map2 (\<lambda>a c. a * b2i (chose_next m) + c * b2i (chose_prev m)
                     + (- 1) * b2i (\<not> (chose_next m \<or> chose_prev m)))
           new_parts cur)"

definition mask_positions :: "bool list \<Rightarrow> nat list" where
  "mask_positions msk = filter (\<lambda>l. msk ! l) [0..<length msk]"

definition masked_select :: "int list \<Rightarrow> bool list \<Rightarrow> int list" where
  "masked_select row msk =
     map (\<lambda>l. row ! l) (filter (\<lambda>l. msk ! l) [0..<min (length row) (length msk)])"

text \<open>
  \<^verbatim>\<open>updated_routes[scnd_part_mask] = second_parts[scnd_part_len_mask]\<close>: the selected
  values, in row-major order over the batch, go to the masked positions in row-major
  order.  The counts must agree, except that a single value is broadcast.
\<close>

fun index_put :: "int list list \<Rightarrow> nat list list \<Rightarrow> int list \<Rightarrow> int list list" where
  "index_put [] _ vals = []"
| "index_put (row # rows) [] vals = row # rows"
| "index_put (row # rows) (p # ps) vals =
     fold (\<lambda>(l, v) r. r[l := v]) (zip p vals) row # index_put rows ps (drop (length p) vals)"

definition masked_assign :: "int list list \<Rightarrow> bool list list \<Rightarrow> int list \<Rightarrow> error + int list list" where
  "masked_assign rows masks vals =
     (let pos = map mask_positions masks;
          n = length (concat pos)
      in if length vals = n then Inr (index_put rows pos vals)
         else if length vals = 1 then Inr (index_put rows pos (replicate n (hd vals)))
         else Inl RuntimeError)"

text \<open>
  \<^verbatim>\<open>updated_routes = torch.full((batch_size, max_n_nodes), -1)\<close> with the first parts
  written to its first columns; first parts wider than the row do not fit.
\<close>

definition place_first_parts :: "nat \<Rightarrow> int list \<Rightarrow> error + int list" where
  "place_first_parts M fp =
     (if M < length fp then Inl RuntimeError else Inr (fp @ replicate (M - length fp) (- 1)))"

text \<open>
  The loop over \<open>bi\<close> for one scenario, after \<^verbatim>\<open>updated_routes[self.is_done()] = -1\<close>:
  a finished, non-empty route is appended to the finished routes and the time of the
  current route is added to the total; the row of a scenario that is done, or whose
  route is finished, is emptied.
\<close>

definition finish_route :: "scenario \<Rightarrow> bool \<Rightarrow> int list \<Rightarrow> scenario \<times> int list" where
  "finish_route sc routes_done updated_row =
     (let planning_already_done = is_done sc;
          row1 = (if is_done sc then map (\<lambda>_. - 1) updated_row else updated_row);
          route = filter (\<lambda>x. - 1 < x) row1;
          sc1 = (if \<not> planning_already_done \<and> routes_done \<and> 0 < length route
                 then sc\<lparr>finished_routes := finished_routes sc @ [route],
                         total_route_time := fadd (total_route_time sc) (current_route_time sc)\<rparr>
                 else sc);
          row2 = (if planning_already_done \<or> routes_done then map (\<lambda>_. - 1) row1 else row1)
      in (sc1, row2))"

text \<open>
  The assignments after the loop for one scenario: the current route, its time, and
  the times from its start (a zero, then the running sums of the leg times).
\<close>

fun cumsum :: "fl \<Rightarrow> fl list \<Rightarrow> fl list" where
  "cumsum acc [] = []"
| "cumsum acc (x # xs) = fadd acc x # cumsum (fadd acc x) xs"

definition set_current_route :: "torch_utils \<Rightarrow> nat \<Rightarrow> bool \<Rightarrow> scenario \<times> int list \<Rightarrow> scenario" where
  "set_current_route lib M symmetric p =
     (let sc = fst p; row = snd p;
          ncr_leg_times = get_route_leg_times_2d lib M row (drive_times sc) (mean_stop_time sc)
      in sc\<lparr>current_routes := row,
            current_route_time := get_total_route_time lib M symmetric sc [row],
            current_route_times_from_start := Fin 0 # cumsum (Fin 0) ncr_leg_times\<rparr>)"

text \<open>
  The rows of \<open>updated_routes\<close> from the masks and the gathered paths: the first
  parts, the second parts inserted behind them, the check that every entry is a node
  index, and the clamp at -1.
\<close>

definition build_updated_routes ::
  "nat \<Rightarrow> scenario list \<Rightarrow> action_masks list \<Rightarrow> int list list \<Rightarrow> error + int list list" where
  "build_updated_routes M scs masks new_parts =
     (if \<not> list_all (\<lambda>(sc, np). length np = length (current_routes sc)) (zip scs new_parts)
      then Inl RuntimeError
      else
        let fps = map (\<lambda>(m, np, sc). first_parts m np (current_routes sc))
                    (zip masks (zip new_parts scs));
            sps = map (\<lambda>(m, np, sc). second_parts m np (current_routes sc))
                    (zip masks (zip new_parts scs))
        in case collect (map (place_first_parts M) fps) of Inl e \<Rightarrow> Inl e
           | Inr rows \<Rightarrow>
              (let first_part_lens = map n_stops fps;
                   scnd_part_lens = map n_stops sps;
                   new_route_lens = map2 (+) first_part_lens scnd_part_lens;
                   scnd_part_mask = map2 (get_variable_slice_mask M) first_part_lens new_route_lens;
                   scnd_part_len_mask =
                     map2 (\<lambda>sp n. get_variable_slice_mask (length sp) 0 n) sps scnd_part_lens;
                   vals = concat (map2 masked_select sps scnd_part_len_mask)
               in case masked_assign rows scnd_part_mask vals of Inl e \<Rightarrow> Inl e
                  | Inr updated_routes \<Rightarrow>
                      if \<not> list_all (list_all (\<lambda>x. x < int M)) updated_routes
                      then Inl (AssertionError [])
                      else Inr (map (map (max (- 1))) updated_routes)))"

text \<open>
  \<^verbatim>\<open>shortest_path_action(path_indices)\<close>, \<open>path_indices\<close> holding one pair (u, v) per
  scenario, u = -1 for "the current route is finished".  Every raise before the loop
  over the scenarios leaves the state as it was but for the memoised path sequences.
\<close>

definition shortest_path_action :: "torch_utils \<Rightarrow> state \<Rightarrow> (int \<times> int) list \<Rightarrow> state result" where
  "shortest_path_action lib s path_indices =
     (let (path_seqs, s1) = get_shortest_path_sequences lib s;
          M = max_n_nodes s;
          scs = scenarios s
      in if length path_indices \<noteq> batch_size s \<or> length path_seqs < batch_size s
         then Inl (IndexError, s1)
         else
           case collect (map (\<lambda>(sc, ps, uv). gather_new_parts M ps uv (length (current_routes sc)))
                          (zip scs (zip path_seqs path_indices))) of
             Inl e \<Rightarrow> Inl (e, s1)
           | Inr new_parts \<Rightarrow>
              (case collect (map2 get_action_masks scs path_indices) of
                 Inl e \<Rightarrow> Inl (e, s1)
               | Inr masks \<Rightarrow>
                  if \<not> list_all valid_action masks
                  then Inl (AssertionError ''invalid action!'', s1)
                  else
                    (case build_updated_routes M scs masks new_parts of
                       Inl e \<Rightarrow> Inl (e, s1)
                     | Inr updated_routes \<Rightarrow>
                        (let finished = map (\<lambda>(sc, m, row). finish_route sc (routes_are_done m) row)
                                          (zip scs (zip masks updated_routes));
                             scs' = map (set_current_route lib M (symmetric_routes s)) finished
                         in update_on_routes lib (s1\<lparr>scenarios := scs'\<rparr>)
                              (map (\<lambda>p. [snd p]) finished) False False))))"

section \<open>Construction\<close>

text \<open>
  One scenario of \<^verbatim>\<open>graph_data\<close>, its matrices padded to the largest node count of
  the batch, and the configuration the constructor reads from the cost object.  A
  length bound is a number or a tensor: a list with one entry for all scenarios, or
  with one entry per scenario.
\<close>

record graph =
  g_drive_times :: "fl mat"
  g_demand :: "fl mat"
  g_nexts :: "int mat"
  num_nodes :: nat

record cost_obj =
  c_symmetric_routes :: bool
  mean_stop_time_s :: fl
  avg_transfer_wait_time_s :: fl
  c_min_route_len :: "int list"
  c_max_route_len :: "int list option"
  get_weights :: "(string \<times> fl list) list"

definition expand :: "'a list \<Rightarrow> nat \<Rightarrow> 'a list" where
  "expand val n = (if length val = 1 then replicate n (hd val) else val)"

definition item_at :: "'a list \<Rightarrow> nat \<Rightarrow> error + 'a" where
  "item_at val ii = (if ii < length val then Inr (val ! ii) else Inl IndexError)"

definition per_scenario :: "'a list \<Rightarrow> nat \<Rightarrow> error + 'a" where
  "per_scenario val ii = (if length val = 1 then Inr (hd val) else item_at val ii)"

definition weights_at :: "(string \<times> fl list) list \<Rightarrow> nat \<Rightarrow> error + (string \<rightharpoonup> fl)" where
  "weights_at cw ii =
     (case collect (map (\<lambda>(key, val). case item_at val ii of Inl e \<Rightarrow> Inl e
                                       | Inr v \<Rightarrow> Inr (key, v)) cw) of
        Inl e \<Rightarrow> Inl e
      | Inr kvs \<Rightarrow> Inr (map_of (rev kvs)))"

definition init_scenario ::
  "cost_obj \<Rightarrow> nat \<Rightarrow> bool mat list \<Rightarrow> int list \<Rightarrow> (string \<times> fl list) list \<Rightarrow> nat \<times> graph \<Rightarrow>
     error + scenario" where
  "init_scenario cost max_nodes vtm n_routes cw p =
     (let ii = fst p; dd = snd p
      in case item_at vtm ii of Inl e \<Rightarrow> Inl e
       | Inr valid_terms \<Rightarrow>
      (case item_at n_routes ii of Inl e \<Rightarrow> Inl e
       | Inr n_to_plan \<Rightarrow>
      (case per_scenario (c_min_route_len cost) ii of Inl e \<Rightarrow> Inl e
       | Inr min_len \<Rightarrow>
      (case (case c_max_route_len cost of None \<Rightarrow> Inr (int (num_nodes dd))
             | Some ml \<Rightarrow> per_scenario ml ii) of Inl e \<Rightarrow> Inl e
       | Inr max_len \<Rightarrow>
      (case weights_at cw ii of Inl e \<Rightarrow> Inl e
       | Inr weights \<Rightarrow>
          Inr \<lparr>drive_times = g_drive_times dd,
               demand = g_demand dd,
               nexts = g_nexts dd,
               base_valid_terms_mat = valid_terms,
               valid_terms_mat = valid_terms,
               mean_stop_time = mean_stop_time_s cost,
               transfer_time_s = avg_transfer_wait_time_s cost,
               total_route_time = Fin 0,
               n_routes_to_plan = n_to_plan,
               min_route_len = min_len,
               max_route_len = max_len,
               n_nodes_in_scenario = num_nodes dd,
               directly_connected = eye,
               route_mat = initial_transit_times,
               transit_times = initial_transit_times,
               has_path = eye,
               current_routes = replicate max_nodes (- 1),
               current_route_time = Fin 0,
               current_route_times_from_start = replicate max_nodes (Fin 0),
               route_nexts = zeros_long,
               n_transfers = zeros_long,
               cost_weights = weights,
               finished_routes = []\<rparr>)))))"

text \<open>
  \<^verbatim>\<open>RouteGenBatchState(graph_data, cost_obj, n_routes_to_plan, valid_terms_mat,
  cost_weights)\<close>.  The name \<^verbatim>\<open>fixed_routes\<close> is free in the constructor's body; it is
  taken as one more argument (None, or a tensor whose first dimension must be 1).
  An empty batch has no largest node count: \<^verbatim>\<open>max\<close> raises a ValueError.
\<close>

definition RouteGenBatchState ::
  "graph list \<Rightarrow> cost_obj \<Rightarrow> int list \<Rightarrow> bool mat list option \<Rightarrow> (string \<times> fl list) list option \<Rightarrow>
     int list list list option \<Rightarrow> error + state" where
  "RouteGenBatchState graph_data cost n_routes valid_terms weights fixed_routes =
     (let num_graphs = length graph_data
      in if num_graphs = 0 then Inl ValueError
         else
           let max_nodes = foldr max (map num_nodes graph_data) 0;
               vtm = (case valid_terms of
                        None \<Rightarrow> replicate num_graphs (\<lambda>i j. \<not> eye i j)
                      | Some v \<Rightarrow> v);
               cw = map (\<lambda>(key, val). (key, expand val num_graphs))
                      (case weights of None \<Rightarrow> get_weights cost | Some w \<Rightarrow> w);
               n_to_plan = expand n_routes num_graphs
           in if (case fixed_routes of None \<Rightarrow> False | Some fr \<Rightarrow> length fr \<noteq> 1)
              then Inl (AssertionError [])
              else
                case collect (map (init_scenario cost max_nodes vtm n_to_plan cw)
                               (zip [0..<num_graphs] graph_data)) of
                  Inl e \<Rightarrow> Inl e
                | Inr scs \<Rightarrow>
                    Inr \<lparr>symmetric_routes = c_symmetric_routes cost,
                         shortest_path_sequences = None,
                         scenarios = scs\<rparr>)"

section \<open>The refresh of one scenario\<close>

text \<open>
  What a refresh that does not raise does to one scenario: the new routes are merged
  into \<open>route_mat\<close>, its finite entries are marked in \<open>directly_connected\<close>, the
  terminal mask and the shortest-path structures are recomputed.
\<close>

definition mark_scenario :: "nat \<Rightarrow> scenario \<Rightarrow> scenario" where
  "mark_scenario M sc =
     sc\<lparr>directly_connected := set_true (directly_connected sc) (finite_entries M (route_mat sc))\<rparr>"

definition refresh_scenario ::
  "torch_utils \<Rightarrow> nat \<Rightarrow> bool \<Rightarrow> bool \<Rightarrow> bool \<Rightarrow> scenario \<Rightarrow> int list list \<Rightarrow> scenario" where
  "refresh_scenario lib M symmetric only_demand invalid_dircon sc update_routes =
     (let sc1 = mark_scenario M (merge_route_mat lib M symmetric sc update_routes);
          sc2 = sc1\<lparr>valid_terms_mat := update_valid_terms_mat M symmetric only_demand invalid_dircon sc1\<rparr>
      in update_transit lib M sc2)"

section \<open>The contract of the library and the reachable states\<close>

text \<open>
  Section 6 of the spec gives the library's contract: matrices of times are
  non-negative or infinite; a finite entry is a float, below the overflow threshold.
  The properties below assume of the library no more than this:
  \<^item> the route-edge matrix of non-negative-or-infinite drive times and stop time is
    non-negative or infinite;
  \<^item> routes without stops connect no pair of distinct nodes;
  \<^item> the distances of the shortest-path solver over a non-negative-or-infinite matrix
    are non-negative or infinite and no larger than the matrix's entries.
\<close>

definition nonneg_or_inf :: "fl \<Rightarrow> bool" where
  "nonneg_or_inf x =
     (case x of Fin r \<Rightarrow> 0 \<le> r \<and> r < overflow_threshold | PInf \<Rightarrow> True | _ \<Rightarrow> False)"

definition mat_ok :: "nat \<Rightarrow> fl mat \<Rightarrow> bool" where
  "mat_ok M A = (\<forall>i<M. \<forall>j<M. nonneg_or_inf (A i j))"

definition edge_matrix_ok :: "torch_utils \<Rightarrow> bool" where
  "edge_matrix_ok lib =
     (\<forall>M routes dt mst symm. mat_ok M dt \<and> nonneg_or_inf mst \<longrightarrow>
        mat_ok M (get_route_edge_matrix lib M routes dt mst symm))"

definition edge_matrix_empty_ok :: "torch_utils \<Rightarrow> bool" where
  "edge_matrix_empty_ok lib =
     (\<forall>M routes dt mst symm. (\<forall>r\<in>set routes. n_stops r = 0) \<longrightarrow>
        (\<forall>i<M. \<forall>j<M. i \<noteq> j \<longrightarrow> get_route_edge_matrix lib M routes dt mst symm i j = PInf))"

definition floyd_warshall_ok :: "torch_utils \<Rightarrow> bool" where
  "floyd_warshall_ok lib =
     (\<forall>M A. mat_ok M A \<longrightarrow>
        mat_ok M (snd (floyd_warshall lib M A)) \<and>
        (\<forall>i<M. \<forall>j<M. fle (snd (floyd_warshall lib M A) i j) (A i j)))"

definition lib_ok :: "torch_utils \<Rightarrow> bool" where
  "lib_ok lib = (edge_matrix_ok lib \<and> edge_matrix_empty_ok lib \<and> floyd_warshall_ok lib)"

text \<open>
  The inputs of the constructor are well formed when the drive times are non-negative
  or infinite, the mean stop time is non-negative or infinite and the transfer time
  is finite.
\<close>

definition input_ok :: "graph list \<Rightarrow> cost_obj \<Rightarrow> bool" where
  "input_ok graph_data cost =
     ((\<forall>g\<in>set graph_data. mat_ok (foldr max (map num_nodes graph_data) 0) (g_drive_times g))
      \<and> nonneg_or_inf (mean_stop_time_s cost)
      \<and> isfinite (avg_transfer_wait_time_s cost))"

text \<open>
  The states a caller can hold: a freshly constructed one, and any that an operation
  returns on one of them without raising.
\<close>

inductive reachable :: "torch_utils \<Rightarrow> state \<Rightarrow> bool" for lib :: torch_utils where
  constructed:
    "RouteGenBatchState graph_data cost n_routes valid_terms weights fixed_routes = Inr s \<Longrightarrow>
     input_ok graph_data cost \<Longrightarrow> reachable lib s"
| acted:
    "reachable lib s \<Longrightarrow> shortest_path_action lib s path_indices = Inr s' \<Longrightarrow> reachable lib s'"
| added:
    "reachable lib s \<Longrightarrow> add_new_routes lib s batch_new_routes f1 f2 = Inr s' \<Longrightarrow> reachable lib s'"
| replaced:
    "reachable lib s \<Longrightarrow> replace_routes lib s batch_new_routes f1 f2 = Inr s' \<Longrightarrow> reachable lib s'"
| cleared:
    "reachable lib s \<Longrightarrow> reachable lib (clear_routes s)"
| reset:
    "reachable lib s \<Longrightarrow> reachable lib (reset_dones s)"

text \<open>The states that operations which do not raise produce from a given state.\<close>

inductive reachable_from :: "torch_utils \<Rightarrow> state \<Rightarrow> state \<Rightarrow> bool"
  for lib :: torch_utils and s0 :: state where
  start: "reachable_from lib s0 s0"
| act:
    "reachable_from lib s0 s \<Longrightarrow> shortest_path_action lib s path_indices = Inr s' \<Longrightarrow>
     reachable_from lib s0 s'"
| add:
    "reachable_from lib s0 s \<Longrightarrow> add_new_routes lib s batch_new_routes f1 f2 = Inr s' \<Longrightarrow>
     reachable_from lib s0 s'"
| replace:
    "reachable_from lib s0 s \<Longrightarrow> replace_routes lib s batch_new_routes f1 f2 = Inr s' \<Longrightarrow>
     reachable_from lib s0 s'"
| clear:
    "reachable_from lib s0 s \<Longrightarrow> reachable_from lib s0 (clear_routes s)"
| reset_done:
    "reachable_from lib s0 s \<Longrightarrow> reachable_from lib s0 (reset_dones s)"

text \<open>
  The invariant of one scenario of a reachable state, M its padded node count.  A
  pair has a path when the solver's distance is finite; its transit time is that
  distance plus the transfer penalty, a float sum that can overflow.
\<close>

definition scenario_inv :: "nat \<Rightarrow> scenario \<Rightarrow> bool" where
  "scenario_inv M sc =
     (mat_ok M (drive_times sc)
      \<and> nonneg_or_inf (mean_stop_time sc)
      \<and> isfinite (transfer_time_s sc)
      \<and> mat_ok M (route_mat sc)
      \<and> (\<forall>i<M. route_mat sc i i = Fin 0)
      \<and> (\<forall>i<M. \<forall>j<M. directly_connected sc i j = flt (route_mat sc i j) PInf)
      \<and> (\<forall>i<M. \<forall>j<M. isfinite (transit_times sc i j) \<longrightarrow> has_path sc i j)
      \<and> (\<forall>i<M. \<forall>j<M. has_path sc i j \<longrightarrow>
            (\<exists>d. 0 \<le> d \<and> d < overflow_threshold
               \<and> transit_times sc i j =
                   fadd (Fin d) (fmul (of_int_fl (n_transfers sc i j)) (transfer_time_s sc))))
      \<and> (\<forall>i<M. \<forall>j<M. directly_connected sc i j \<longrightarrow> has_path sc i j)
      \<and> (\<forall>i j. 0 \<le> n_transfers sc i j)
      \<and> length (current_routes sc) = M
      \<and> (\<forall>x\<in>set (current_routes sc). - 1 \<le> x))"

definition state_inv :: "state \<Rightarrow> bool" where
  "state_inv s = (\<forall>sc\<in>set (scenarios s). scenario_inv (max_n_nodes s) sc)"

text \<open>
  What an action that does not raise does to one scenario, given the scenario's masks
  and its row of \<open>updated_routes\<close>: the loop body, the assignments after the loop, and
  the refresh on the scenario's new current route.
\<close>

definition step_scenario ::
  "torch_utils \<Rightarrow> nat \<Rightarrow> bool \<Rightarrow> scenario \<Rightarrow> action_masks \<Rightarrow> int list \<Rightarrow> scenario" where
  "step_scenario lib M symmetric sc m updated_row =
     (let p = finish_route sc (routes_are_done m) updated_row
      in refresh_scenario lib M symmetric False False (set_current_route lib M symmetric p) [snd p])"

text \<open>What \<open>add_new_routes\<close> does to one scenario before the refresh.\<close>

definition add_scenario :: "torch_utils \<Rightarrow> nat \<Rightarrow> bool \<Rightarrow> scenario \<Rightarrow> int list list \<Rightarrow> scenario" where
  "add_scenario lib M symmetric sc new_routes =
     (add_finished_routes sc new_routes)\<lparr>total_route_time :=
        fadd (total_route_time sc)
          (get_total_route_time lib M symmetric (add_finished_routes sc new_routes) new_routes)\<rparr>"

text \<open>
  The shortest-path structures of scenario \<open>b\<close> are up to date when the transit times
  and the paths are those the shortest-path step of the refresh computes from the
  scenario's \<open>route_mat\<close>, and the terminal mask is symmetric when routes run both
  ways.  Every refresh leaves them so.
\<close>

definition up_to_date :: "torch_utils \<Rightarrow> state \<Rightarrow> nat \<Rightarrow> bool" where
  "up_to_date lib s b =
     (let M = max_n_nodes s; sc = scenarios s ! b
      in \<forall>i<M. \<forall>j<M.
           transit_times sc i j = transit_times (update_transit lib M sc) i j
           \<and> has_path sc i j = has_path (update_transit lib M sc) i j
           \<and> (symmetric_routes s \<longrightarrow> valid_terms_mat sc i j = valid_terms_mat sc j i))"

section \<open>A library after the spec\<close>

text \<open>
  Modelled from the spec: \<^verbatim>\<open>torch_utils.floyd_warshall\<close> is not among the sources.
  Section 2: "computes all-pairs shortest paths and next-hop successor matrices (an
  all-pairs shortest-path solver over a complete graph with inf for unreachable
  pairs)".  One round per intermediate node k; a pair without a path has next hop -1.
\<close>

definition fw_step :: "nat \<Rightarrow> int mat \<times> fl mat \<Rightarrow> int mat \<times> fl mat" where
  "fw_step k nd =
     (let nx = fst nd; d = snd nd
      in ((\<lambda>i j. if flt (fadd (d i k) (d k j)) (d i j) then nx i k else nx i j),
          (\<lambda>i j. if flt (fadd (d i k) (d k j)) (d i j) then fadd (d i k) (d k j) else d i j)))"

definition spec_floyd_warshall :: "nat \<Rightarrow> fl mat \<Rightarrow> int mat \<times> fl mat" where
  "spec_floyd_warshall M A =
     fold fw_step [0..<M] ((\<lambda>i j. if flt (A i j) PInf then int j else - 1), A)"

text \<open>
  Modelled from the spec: \<^verbatim>\<open>torch_utils.reconstruct_all_paths\<close> is not among the
  sources.  Section 6: "a path-reconstruction function returning, for every node
  pair, the full stop sequence and its length".  The sequence follows the next hops
  from the first node, for at most M nodes, and is padded with -1 to M entries.
\<close>

fun follow :: "nat \<Rightarrow> int mat \<Rightarrow> nat \<Rightarrow> nat \<Rightarrow> int list" where
  "follow 0 nx i j = []"
| "follow (Suc n) nx i j =
     (if i = j \<or> nx i j < 0 then [] else nx i j # follow n nx (nat (nx i j)) j)"

definition path_nodes :: "nat \<Rightarrow> int mat \<Rightarrow> nat \<Rightarrow> nat \<Rightarrow> int list" where
  "path_nodes M nx i j = (if nx i j < 0 then [] else int i # follow (M - 1) nx i j)"

definition spec_reconstruct_all_paths :: "nat \<Rightarrow> int mat \<Rightarrow> int list mat \<times> int mat" where
  "spec_reconstruct_all_paths M nx =
     ((\<lambda>i j. path_nodes M nx i j @ replicate (M - length (path_nodes M nx i j)) (- 1)),
      (\<lambda>i j. int (length (path_nodes M nx i j))))"

text \<open>
  Modelled from the spec: \<^verbatim>\<open>torch_utils.get_route_leg_times\<close> is not among the sources.
  Section 4.2: "leg times for a missing stop are treated as 0 only at the padded
  tail"; a leg between two stops takes the drive time and the mean stop time.  A leg
  to a node outside the scenario's matrix has no time: it is infinite.
\<close>

definition leg_time :: "nat \<Rightarrow> fl mat \<Rightarrow> fl \<Rightarrow> int \<Rightarrow> int \<Rightarrow> fl" where
  "leg_time M dt mst a b =
     (if a < 0 \<or> b < 0 then Fin 0
      else if nat a < M \<and> nat b < M then fadd (dt (nat a) (nat b)) mst
      else PInf)"

definition spec_route_leg_times :: "nat \<Rightarrow> int list \<Rightarrow> fl mat \<Rightarrow> fl \<Rightarrow> fl list" where
  "spec_route_leg_times M route dt mst = map2 (leg_time M dt mst) route (tl route)"

text \<open>
  Modelled from the spec: \<^verbatim>\<open>torch_utils.get_route_edge_matrix\<close> is not among the
  sources.  Section 4.3: "a route-edge matrix giving the best direct-ride time
  between any two stops on the same route (accounting for mean_stop_time_s per
  intermediate stop, and -- if symmetric_routes -- mirrored travel in both
  directions)"; section 3: "entries are inf where no single route connects the pair
  directly".
\<close>

definition ride_times :: "nat \<Rightarrow> fl mat \<Rightarrow> fl \<Rightarrow> int list \<Rightarrow> (int \<times> int \<times> fl) list" where
  "ride_times M dt mst route =
     (let stops = filter (\<lambda>x. - 1 < x) route;
          legs = spec_route_leg_times M stops dt mst
      in concat (map (\<lambda>p. map (\<lambda>q. (stops ! p, stops ! q, fsum (map (\<lambda>l. legs ! l) [p..<q])))
                          [Suc p..<length stops])
                   [0..<length stops]))"

definition spec_route_edge_matrix :: "nat \<Rightarrow> int list list \<Rightarrow> fl mat \<Rightarrow> fl \<Rightarrow> bool \<Rightarrow> fl mat" where
  "spec_route_edge_matrix M routes dt mst symmetric =
     (let rides = concat (map (ride_times M dt mst) routes) @
                  (if symmetric then concat (map (\<lambda>r. ride_times M dt mst (rev r)) routes) else [])
      in (\<lambda>i j. foldr fminimum
                   (map (\<lambda>r. snd (snd r))
                      (filter (\<lambda>r. fst r = int i \<and> fst (snd r) = int j) rides)) PInf))"

definition spec_lib :: torch_utils where
  "spec_lib = \<lparr>floyd_warshall = spec_floyd_warshall,
               reconstruct_all_paths = spec_reconstruct_all_paths,
               get_route_edge_matrix = spec_route_edge_matrix,
               get_route_leg_times = (\<lambda>M routes dt mst. map (\<lambda>r. spec_route_leg_times M r dt mst) routes),
               get_route_leg_times_2d = spec_route_leg_times\<rparr>"

section \<open>An example\<close>

text \<open>
  Three nodes on a line, 5 apart, one trip from node 0 to node 2, one route to plan,
  routes in both directions.
\<close>

definition example_graph :: graph where
  "example_graph =
     \<lparr>g_drive_times = (\<lambda>i j. Fin (5 * real_of_int \<bar>int i - int j\<bar>)),
      g_demand = (\<lambda>i j. if i = 0 \<and> j = 2 then Fin 1 else Fin 0),
      g_nexts = (\<lambda>i j. if i < j then int i + 1 else if j < i then int i - 1 else int i),
      num_nodes = 3\<rparr>"

definition example_cost :: cost_obj where
  "example_cost =
     \<lparr>c_symmetric_routes = True,
      mean_stop_time_s = Fin 0,
      avg_transfer_wait_time_s = Fin 300,
      c_min_route_len = [2],
      c_max_route_len = None,
      get_weights = [(''demand_time_weight'', [Fin (1 / 2)]), (''route_time_weight'', [Fin (1 / 2)])]\<rparr>"

definition example_fresh :: state where
  "example_fresh = projr (RouteGenBatchState [example_graph] example_cost [1] None None None)"





text \<open>The route 0, 1, 2 in progress, and then finished.\<close>

definition example_started :: state where
  "example_started = projr (shortest_path_action spec_lib example_fresh [(0, 2)])"

definition example_finished :: state where
  "example_finished = projr (shortest_path_action spec_lib example_started [(- 1, 0)])"

text \<open>
  The same scenario with given routes: the nodes of \<open>served\<close> are those on routes
  built so far, riding between two of them takes the drive time; \<open>cur\<close> is the
  route in progress and \<open>fin\<close> are the finished routes.
\<close>

definition example_route_mat :: "nat list \<Rightarrow> fl mat" where
  "example_route_mat served =
     (\<lambda>i j. if i \<in> set served \<and> j \<in> set served then g_drive_times example_graph i j
            else initial_transit_times i j)"

definition example_scenario :: "nat list \<Rightarrow> int list \<Rightarrow> int list list \<Rightarrow> int \<Rightarrow> scenario" where
  "example_scenario served cur fin n_to_plan =
     \<lparr>drive_times = g_drive_times example_graph,
      demand = g_demand example_graph,
      nexts = g_nexts example_graph,
      base_valid_terms_mat = (\<lambda>i j. i \<noteq> j),
      valid_terms_mat = (\<lambda>i j. i \<noteq> j),
      mean_stop_time = Fin 0,
      transfer_time_s = Fin 300,
      total_route_time = fsum (map (\<lambda>r. Fin (10 * (real (n_stops r) - 1))) fin),
      n_routes_to_plan = n_to_plan,
      min_route_len = 2,
      max_route_len = 3,
      n_nodes_in_scenario = 3,
      directly_connected = (\<lambda>i j. flt (example_route_mat served i j) PInf),
      route_mat = example_route_mat served,
      transit_times = example_route_mat served,
      has_path = (\<lambda>i j. flt (example_route_mat served i j) PInf),
      current_routes = cur,
      current_route_time = (if n_stops cur = 0 then Fin 0 else Fin (10 * (real (n_stops cur) - 1))),
      current_route_times_from_start = replicate 3 (Fin 0),
      route_nexts = g_nexts example_graph,
      n_transfers = zeros_long,
      cost_weights = [''demand_time_weight'' \<mapsto> Fin (1 / 2), ''route_time_weight'' \<mapsto> Fin (1 / 2)],
      finished_routes = fin\<rparr>"

definition example_state :: "nat list \<Rightarrow> int list \<Rightarrow> int list list \<Rightarrow> int \<Rightarrow> state" where
  "example_state served cur fin n_to_plan =
     \<lparr>symmetric_routes = True,
      shortest_path_sequences = None,
      scenarios = [example_scenario served cur fin n_to_plan]\<rparr>"

text \<open>The route 0, 1, 2 in progress; the single stop 0 in progress; the stops 0, 1 in progress.\<close>

definition example_in_progress :: state where
  "example_in_progress = example_state [0, 1, 2] [0, 1, 2] [] 1"

definition example_one_stop :: state where
  "example_one_stop = example_state [] [0, - 1, - 1] [] 1"

definition example_two_stops :: state where
  "example_two_stops = example_state [0, 1] [0, 1, - 1] [] 1"

text \<open>The route 0, 1, 2 finished: planning is complete.\<close>

definition example_done :: state where
  "example_done = example_state [0, 1, 2] [- 1, - 1, - 1] [[0, 1, 2]] 1"



section \<open>Duplicate-route check\<close>

text \<open>
  \<^verbatim>\<open>check_for_duplicate_routes(routes_tensor)\<close> takes a tensor of shape
  (batch, n_routes, route_len).  \<^verbatim>\<open>routes_tensor[:, None] == routes_tensor[:, None].transpose(1, 2)\<close>
  broadcasts to shape (batch, n_routes, n_routes, route_len) with entry
  \<open>[b, r1, r2, l]\<close> equal to \<open>routes[b][r2][l] = routes[b][r1][l]\<close>;
  \<^verbatim>\<open>.all(dim=-1)\<close> folds the stops, and the two \<^verbatim>\<open>.any(-1)\<close> fold both
  route axes.  Nothing removes the pairs \<open>r1 = r2\<close>.
\<close>

definition same_stops :: "int list \<Rightarrow> int list \<Rightarrow> bool list" where
  "same_stops r1 r2 = map (\<lambda>(a, b). a = b) (zip r2 r1)"

definition routes_are_identical :: "int list list \<Rightarrow> bool list list" where
  "routes_are_identical rs = map (\<lambda>r1. map (\<lambda>r2. list_all id (same_stops r1 r2)) rs) rs"

definition check_for_duplicate_routes :: "int list list list \<Rightarrow> bool list" where
  "check_for_duplicate_routes routes_tensor =
     map (\<lambda>rs. list_ex id (map (list_ex id) (routes_are_identical rs))) routes_tensor"

section \<open>Cost evaluation\<close>

text \<open>
  The configuration the cost modules read: the route-length bounds (numbers, the
  upper one optional), the weights of \<^verbatim>\<open>MyCostModule\<close> and the extra penalty of
  \<^verbatim>\<open>NikolicCostModule\<close>.
\<close>

record cost_module =
  cm_min_route_len :: "int option"
  cm_max_route_len :: "int option"
  demand_time_weight :: fl
  route_time_weight :: fl
  constraint_violation_weight :: fl
  ignore_stops_oob :: bool
  unsatisfied_penalty_extra_s :: fl

text \<open>
  The property \<^verbatim>\<open>routes\<close>: the finished routes of every scenario, and the stops of
  its current route when there are at least two.
\<close>

definition routes :: "state \<Rightarrow> int list list list" where
  "routes s =
     map (\<lambda>sc. finished_routes sc @
                (if 1 < n_stops (current_routes sc)
                 then [filter (\<lambda>x. - 1 < x) (current_routes sc)] else []))
         (scenarios s)"

text \<open>The flatten of an M x M slice, row by row (\<^verbatim>\<open>flatten(1, 2)\<close>), and a count of them.\<close>

definition flatten :: "nat \<Rightarrow> 'a mat \<Rightarrow> 'a list" where
  "flatten M A = concat (map (\<lambda>i. map (A i) [0..<M]) [0..<M])"

definition count_true :: "nat \<Rightarrow> bool mat \<Rightarrow> nat" where
  "count_true M A = length (filter id (flatten M A))"

definition get_n_disconnected_demand_edges :: "nat \<Rightarrow> bool \<Rightarrow> scenario \<Rightarrow> fl" where
  "get_n_disconnected_demand_edges M symmetric sc =
     (let nopath = (\<lambda>i j. \<not> has_path sc i j);
          needed_path_missing = (\<lambda>i j. nopath i j \<and> flt (Fin 0) (demand sc i j));
          n_disconnected_demand_edges = count_true M needed_path_missing
      in if symmetric then Fin (real n_disconnected_demand_edges / 2)
         else Fin (real n_disconnected_demand_edges))"

definition n_demand_edges :: "nat \<Rightarrow> bool \<Rightarrow> scenario \<Rightarrow> fl" where
  "n_demand_edges M symmetric sc =
     (let n_demand_edges = count_true M (\<lambda>i j. flt (Fin 0) (demand sc i j))
      in if symmetric then Fin (of_int \<lceil>real n_demand_edges / 2\<rceil>)
         else Fin (real n_demand_edges))"

text \<open>
  \<^verbatim>\<open>CostHelperOutput\<close>, one record per scenario (the optional per-route ridership,
  computed on request only and for reporting, is left out).
\<close>

record CostHelperOutput =
  total_demand_time :: fl
  cho_total_route_time :: fl
  trips_at_transfers :: "fl list"
  total_demand :: fl
  unserved_demand :: fl
  total_transfers :: fl
  trip_times :: "fl mat"
  n_disconnected_demand_edges :: fl
  n_stops_oob :: fl
  batch_routes :: "int list list"
  cho_cost :: "fl option"

definition mean_demand_time :: "CostHelperOutput \<Rightarrow> fl" where
  "mean_demand_time cho = fdiv (total_demand_time cho) (fadd (total_demand cho) (Fin (1 / 1000000)))"

subsection \<open>The shared helper\<close>

text \<open>The stops a route is short of the lower bound or over the upper bound.\<close>

definition route_len_delta :: "int \<Rightarrow> int option \<Rightarrow> int list \<Rightarrow> int" where
  "route_len_delta min_len max_len route =
     (let route_len = int (n_stops route);
          delta = max (min_len - route_len) 0;
          delta = (if route_len = 0 then 0 else delta)
      in case max_len of None \<Rightarrow> delta
         | Some mx \<Rightarrow> delta + max (route_len - mx) 0)"

text \<open>
  The loop check scatters a one at every stop of a route, the padding going to a
  dummy index that is cut off, and counts the ones.  An index outside the scattered
  dimension raises.
\<close>

definition n_stops_visited :: "nat \<Rightarrow> int list \<Rightarrow> error + nat" where
  "n_stops_visited M route =
     (let scatterer = map (\<lambda>x. if x = - 1 then int M else x) route
      in if list_all (\<lambda>x. 0 \<le> x \<and> x \<le> int M) scatterer
         then Inr (length (filter (\<lambda>k. int k \<in> set scatterer) [0..<M]))
         else Inl RuntimeError)"

text \<open>
  The demand of the pairs at a number of transfers: pairs without a path get 3
  transfers, so that they count as unserved.
\<close>

definition n_transfers_nopath :: "scenario \<Rightarrow> int mat" where
  "n_transfers_nopath sc = (\<lambda>i j. if \<not> has_path sc i j then 3 else n_transfers sc i j)"

definition cost_helper_scenario ::
  "nat \<Rightarrow> bool \<Rightarrow> int \<Rightarrow> int option \<Rightarrow> scenario \<Rightarrow> int list list \<Rightarrow> CostHelperOutput" where
  "cost_helper_scenario M symmetric min_len max_len sc rows =
     (let deltas = map (route_len_delta min_len max_len) rows;
          n_unstarted_routes = n_routes_left_to_plan sc - (if has_current_route sc then 1 else 0);
          nopath = (\<lambda>i j. \<not> has_path sc i j);
          nt = n_transfers_nopath sc;
          d = (\<lambda>ii. msum M (\<lambda>i j. fmul (demand sc i j) (of_bool_fl (nt i j = ii))));
          d_un = msum M (\<lambda>i j. fmul (demand sc i j) (of_bool_fl (2 < nt i j)));
          trip_times' = (\<lambda>i j. if nopath i j then Fin 0 else transit_times sc i j)
      in \<lparr>total_demand_time = msum M (\<lambda>i j. fmul (demand sc i j) (trip_times' i j)),
          cho_total_route_time = total_route_time_property sc,
          trips_at_transfers = [d 0, d 1, d 2, d_un],
          total_demand = msum M (demand sc),
          unserved_demand = msum M (\<lambda>i j. fmul (demand sc i j) (of_bool_fl (nopath i j))),
          total_transfers = msum M (\<lambda>i j. fmul (demand sc i j) (of_int_fl (n_transfers sc i j))),
          trip_times = trip_times',
          n_disconnected_demand_edges = get_n_disconnected_demand_edges M symmetric sc,
          n_stops_oob = of_int_fl (sum_list deltas + n_unstarted_routes * min_len),
          batch_routes = rows,
          cho_cost = None\<rparr>)"

text \<open>
  \<^verbatim>\<open>_cost_helper(state)\<close>.  A lower bound of None raises at the subtraction; routes
  that visit fewer distinct stops than they have stops fail the assertion.
\<close>

definition cost_helper :: "cost_module \<Rightarrow> state \<Rightarrow> error + CostHelperOutput list" where
  "cost_helper cm s =
     (let M = max_n_nodes s;
          rows = get_batch_tensor_from_routes (routes s)
      in case cm_min_route_len cm of None \<Rightarrow> Inl TypeError
         | Some min_len \<Rightarrow>
        (case collect (map (\<lambda>rs. collect (map (n_stops_visited M) rs)) rows) of
           Inl e \<Rightarrow> Inl e
         | Inr visited \<Rightarrow>
             if visited \<noteq> map (map n_stops) rows
             then Inl (AssertionError ''some routes have loops!'')
             else Inr (map2 (cost_helper_scenario M (symmetric_routes s) min_len (cm_max_route_len cm))
                         (scenarios s) rows)))"

subsection \<open>MyCostModule\<close>

text \<open>\<^verbatim>\<open>state.drive_times.flatten(1,2).max(1).values\<close>; the maximum of no entry raises.\<close>

definition time_normalizer :: "nat \<Rightarrow> scenario \<Rightarrow> error + fl" where
  "time_normalizer M sc =
     (case flatten M (drive_times sc) of [] \<Rightarrow> Inl IndexError
      | x # xs \<Rightarrow> Inr (foldl fmaximum x xs))"

definition weight_of :: "scenario \<Rightarrow> string \<Rightarrow> fl \<Rightarrow> fl" where
  "weight_of sc key default_weight =
     (case cost_weights sc key of Some w \<Rightarrow> w | None \<Rightarrow> default_weight)"

definition unserved_penalty :: "CostHelperOutput \<Rightarrow> fl \<Rightarrow> fl" where
  "unserved_penalty cho tn = fdiv (fmul (fmul (unserved_demand cho) tn) (Fin 2)) (total_demand cho)"

definition demand_cost :: "CostHelperOutput \<Rightarrow> fl \<Rightarrow> bool \<Rightarrow> fl" where
  "demand_cost cho tn no_norm =
     (let demand_cost = fadd (mean_demand_time cho) (unserved_penalty cho tn)
      in if \<not> no_norm then fdiv demand_cost tn else demand_cost)"

definition route_cost :: "CostHelperOutput \<Rightarrow> fl \<Rightarrow> int \<Rightarrow> bool \<Rightarrow> fl" where
  "route_cost cho tn n_routes no_norm =
     (let route_cost = cho_total_route_time cho
      in if \<not> no_norm
         then fdiv route_cost (fadd (fmul tn (of_int_fl n_routes)) (Fin (1 / 1000000)))
         else route_cost)"

definition const_viol_cost :: "bool \<Rightarrow> fl \<Rightarrow> fl \<Rightarrow> fl" where
  "const_viol_cost ignore_oob frac_uncovered frac_stops_oob =
     (let cv = fadd frac_uncovered (fmul (Fin (1 / 10)) (of_bool_fl (flt (Fin 0) frac_uncovered)))
      in if \<not> ignore_oob
         then fadd cv (fadd frac_stops_oob (fmul (Fin (1 / 10)) (of_bool_fl (flt (Fin 0) frac_stops_oob))))
         else cv)"

definition my_cost ::
  "cost_module \<Rightarrow> nat \<Rightarrow> bool \<Rightarrow> fl \<Rightarrow> bool \<Rightarrow> int \<Rightarrow> scenario \<Rightarrow> CostHelperOutput \<Rightarrow> fl \<Rightarrow> fl" where
  "my_cost cm M symmetric constraint_weight no_norm len sc cho tn =
     (let demand_time_weight' = weight_of sc ''demand_time_weight'' (demand_time_weight cm);
          route_time_weight' = weight_of sc ''route_time_weight'' (route_time_weight cm);
          n_routes = n_routes_to_plan sc;
          frac_uncovered = fdiv (n_disconnected_demand_edges cho) (n_demand_edges M symmetric sc);
          denom = n_routes * len;
          denom = (if denom = 0 then 1 else denom);
          frac_stops_oob = fdiv (n_stops_oob cho) (of_int_fl denom);
          c = fadd (fmul (demand_cost cho tn no_norm) demand_time_weight')
                   (fmul (route_cost cho tn n_routes no_norm) route_time_weight')
      in fadd c (fmul (const_viol_cost (ignore_stops_oob cm) frac_uncovered frac_stops_oob)
                      constraint_weight))"

text \<open>
  \<^verbatim>\<open>MyCostModule.forward(state, constraint_weight, no_norm)\<close>: the helper's output with
  the cost of every scenario, or the failure of the helper or of an assertion.
\<close>

definition MyCostModule_forward ::
  "cost_module \<Rightarrow> state \<Rightarrow> fl option \<Rightarrow> bool \<Rightarrow> error + CostHelperOutput list" where
  "MyCostModule_forward cm s constraint_weight no_norm =
     (case cost_helper cm s of Inl e \<Rightarrow> Inl e
      | Inr cho \<Rightarrow>
     (let M = max_n_nodes s;
          cw = (case constraint_weight of None \<Rightarrow> constraint_violation_weight cm | Some w \<Rightarrow> w)
      in case collect (map (time_normalizer M) (scenarios s)) of Inl e \<Rightarrow> Inl e
       | Inr tns \<Rightarrow>
      (case (case cm_min_route_len cm of
               None \<Rightarrow> (case cm_max_route_len cm of None \<Rightarrow> Inl TypeError | Some l \<Rightarrow> Inr l)
             | Some l \<Rightarrow> Inr l) of Inl e \<Rightarrow> Inl e
       | Inr len \<Rightarrow>
      (let costs = map (\<lambda>(sc, cho_b, tn). my_cost cm M (symmetric_routes s) cw no_norm len sc cho_b tn)
                     (zip (scenarios s) (zip cho tns))
       in if \<not> list_all isfinite costs then Inl (AssertionError ''invalid cost was computed!'')
          else if \<not> list_all (fle (Fin 0)) costs then Inl (AssertionError ''cost is negative!'')
          else Inr (map2 (\<lambda>cho_b c. cho_b\<lparr>cho_cost := Some c\<rparr>) cho costs)))))"

subsection \<open>NikolicCostModule\<close>

text \<open>\<^verbatim>\<open>torch.isclose(x, 0)\<close> with the default tolerances: within 1e-8 of zero.\<close>

definition isclose_zero :: "fl \<Rightarrow> bool" where
  "isclose_zero x = (case x of Fin r \<Rightarrow> \<bar>r\<bar> \<le> 1 / 100000000 | _ \<Rightarrow> False)"

definition nikolic_cost :: "cost_module \<Rightarrow> nat \<Rightarrow> CostHelperOutput \<Rightarrow> fl" where
  "nikolic_cost cm M cho =
     (let tot_sat_demand = fsub (total_demand cho) (unserved_demand cho);
          w_2 = fdiv (total_demand_time cho) tot_sat_demand;
          no_sat_dmd = isclose_zero tot_sat_demand;
          w_2 = (if no_sat_dmd then fdiv (msum M (trip_times cho)) (Fin (real (M * M))) else w_2);
          w_2 = fadd w_2 (unsatisfied_penalty_extra_s cm)
      in fadd (total_demand_time cho) (fmul w_2 (unserved_demand cho)))"

text \<open>
  \<^verbatim>\<open>NikolicCostModule.forward(state)\<close>; the module's route-length bounds are 2 and
  None.
\<close>

definition NikolicCostModule_forward :: "cost_module \<Rightarrow> state \<Rightarrow> error + CostHelperOutput list" where
  "NikolicCostModule_forward cm s =
     (case cost_helper (cm\<lparr>cm_min_route_len := Some 2, cm_max_route_len := None\<rparr>) s of
        Inl e \<Rightarrow> Inl e
      | Inr cho \<Rightarrow>
     (let costs = map (nikolic_cost cm (max_n_nodes s)) cho
      in if list_ex (\<lambda>(c, cho_b). feq c (Fin 0) \<and> flt (Fin 0) (total_demand cho_b)) (zip costs cho)
         then Inl (AssertionError [])
         else if \<not> list_all isfinite costs then Inl (AssertionError ''invalid cost was computed!'')
         else Inr (map2 (\<lambda>cho_b c. cho_b\<lparr>cho_cost := Some c\<rparr>) cho costs)))"

subsection \<open>Values of finite entries\<close>

text \<open>
  The value of a finite entry, the sum of a real matrix over the M x M block, and the
  entries that are finite and not negative.
\<close>

fun fin_val :: "fl \<Rightarrow> real" where
  "fin_val (Fin r) = r"
| "fin_val _ = 0"

definition total_over :: "nat \<Rightarrow> (nat \<Rightarrow> nat \<Rightarrow> real) \<Rightarrow> real" where
  "total_over M a = (\<Sum>i<M. \<Sum>j<M. a i j)"

definition fin_nonneg :: "fl \<Rightarrow> bool" where
  "fin_nonneg x = (case x of Fin r \<Rightarrow> 0 \<le> r | _ \<Rightarrow> False)"

definition fin_pos :: "fl \<Rightarrow> bool" where
  "fin_pos x = (case x of Fin r \<Rightarrow> 0 < r | _ \<Rightarrow> False)"

subsection \<open>Well-formed inputs of a cost evaluation\<close>

text \<open>
  A route is well formed when its entries are node indices or the padding -1 and no
  stop occurs twice.  A scenario can be costed when
  \<^item> its demand and drive times are finite and not negative on its node pairs, with a
    positive drive time;
  \<^item> the transit times of the pairs with a path are finite and not negative;
  \<^item> some pair has positive demand and no path or a positive transit time;
  \<^item> its route times are finite and not negative;
  \<^item> it has no more routes, finished or in progress, than routes to plan;
  \<^item> its routes are well formed.
\<close>

definition route_ok :: "nat \<Rightarrow> int list \<Rightarrow> bool" where
  "route_ok M r = (list_all (\<lambda>x. - 1 \<le> x \<and> x < int M) r \<and> distinct (filter (\<lambda>x. - 1 < x) r))"

definition scenario_costable :: "nat \<Rightarrow> scenario \<Rightarrow> bool" where
  "scenario_costable M sc =
     ((\<forall>i<M. \<forall>j<M. fin_nonneg (demand sc i j))
      \<and> (\<forall>i<M. \<forall>j<M. fin_nonneg (drive_times sc i j))
      \<and> (\<exists>i<M. \<exists>j<M. fin_pos (drive_times sc i j))
      \<and> (\<forall>i<M. \<forall>j<M. has_path sc i j \<longrightarrow> fin_nonneg (transit_times sc i j))
      \<and> (\<exists>i<M. \<exists>j<M. fin_pos (demand sc i j) \<and> (has_path sc i j \<longrightarrow> fin_pos (transit_times sc i j)))
      \<and> fin_nonneg (total_route_time sc)
      \<and> fin_nonneg (current_route_time sc)
      \<and> n_finished_routes sc + (if has_current_route sc then 1 else 0) \<le> n_routes_to_plan sc
      \<and> list_all (route_ok M) (finished_routes sc)
      \<and> route_ok M (current_routes sc))"

text \<open>The weights of a cost evaluation are well formed when they are finite and not negative.\<close>

definition weights_ok :: "cost_module \<Rightarrow> fl option \<Rightarrow> scenario \<Rightarrow> bool" where
  "weights_ok cm constraint_weight sc =
     (fin_nonneg (weight_of sc ''demand_time_weight'' (demand_time_weight cm))
      \<and> fin_nonneg (weight_of sc ''route_time_weight'' (route_time_weight cm))
      \<and> fin_nonneg (case constraint_weight of None \<Rightarrow> constraint_violation_weight cm | Some w \<Rightarrow> w))"

section \<open>Basic facts\<close>

lemma overflow_threshold_eq: "overflow_threshold = 340282356779733661637539395458142568448"
  by (simp add: overflow_threshold_def)

lemma overflow_threshold_power: "overflow_threshold = 2 ^ 128 - 2 ^ 103"
  by (simp add: overflow_threshold_def)

lemma overflow_threshold_pos [simp]: "0 < overflow_threshold"
  by (simp add: overflow_threshold_eq)

lemma round_fl_Fin: "- overflow_threshold < r \<Longrightarrow> r < overflow_threshold \<Longrightarrow> round_fl r = Fin r"
  by (simp add: round_fl_def)

lemma round_fl_zero [simp]: "round_fl 0 = Fin 0"
  by (simp add: round_fl_def overflow_threshold_eq)

lemma round_fl_one [simp]: "round_fl 1 = Fin 1"
  by (simp add: round_fl_def overflow_threshold_eq)

lemma round_fl_numeral [simp]:
  assumes "numeral n < overflow_threshold"
  shows "round_fl (numeral n) = Fin (numeral n)"
proof -
  have "(0 :: real) < numeral n" by simp
  with overflow_threshold_pos have "- overflow_threshold < numeral n" by linarith
  from round_fl_Fin [OF this assms] show ?thesis .
qed

lemma round_fl_cases:
  "round_fl r = Fin r \<and> - overflow_threshold < r \<and> r < overflow_threshold
   \<or> round_fl r = PInf \<and> overflow_threshold \<le> r
   \<or> round_fl r = NInf \<and> r \<le> - overflow_threshold"
  using overflow_threshold_pos by (auto simp: round_fl_def)

lemma isfinite_fadd: "isfinite (fadd a b) \<Longrightarrow> isfinite a \<and> isfinite b"
  by (cases a; cases b) simp_all

lemma initial_transit_times_eq:
  "initial_transit_times i j = (if i = j then Fin 0 else PInf)"
  by (simp add: initial_transit_times_def one_minus_eye_def of_bool_fl_def eye_def fsub_def)

lemma collect_Inr_length: "collect xs = Inr ys \<Longrightarrow> length ys = length xs"
proof (induction xs arbitrary: ys)
  case Nil
  then show ?case by simp
next
  case (Cons x xs)
  then show ?case by (cases x) (auto split: sum.splits)
qed

lemma collect_Inr_nth: "collect xs = Inr ys \<Longrightarrow> i < length xs \<Longrightarrow> xs ! i = Inr (ys ! i)"
proof (induction xs arbitrary: ys i)
  case Nil
  then show ?case by simp
next
  case (Cons x xs)
  then show ?case by (cases x; cases i) (auto split: sum.splits)
qed

lemma collect_all_Inr: "(\<And>x. x \<in> set xs \<Longrightarrow> \<exists>y. x = Inr y) \<Longrightarrow> \<exists>ys. collect xs = Inr ys"
proof (induction xs)
  case Nil
  then show ?case by simp
next
  case (Cons x xs)
  then obtain y where "x = Inr y" by auto
  moreover from Cons obtain ys where "collect xs = Inr ys" by auto
  ultimately show ?case by simp
qed

lemma collect_Inl: "collect xs = Inl e \<Longrightarrow> Inl e \<in> set xs"
proof (induction xs)
  case Nil
  then show ?case by simp
next
  case (Cons x xs)
  then show ?case by (cases x) (auto split: sum.splits)
qed

subsection \<open>The freshly constructed state\<close>

lemma init_scenario_fields:
  assumes "init_scenario cost max_nodes vtm n_routes cw p = Inr sc"
  shows "route_mat sc = initial_transit_times" "transit_times sc = initial_transit_times"
    "directly_connected sc = eye" "has_path sc = eye" "total_route_time sc = Fin 0"
    "current_route_time sc = Fin 0" "current_routes sc = replicate max_nodes (- 1)"
    "route_nexts sc = zeros_long" "n_transfers sc = zeros_long" "finished_routes sc = []"
    "valid_terms_mat sc = base_valid_terms_mat sc" "item_at vtm (fst p) = Inr (valid_terms_mat sc)"
    "transfer_time_s sc = avg_transfer_wait_time_s cost" "n_nodes_in_scenario sc = num_nodes (snd p)"
  using assms by (auto simp: init_scenario_def Let_def split: sum.splits)

lemma RouteGenBatchState_scenario:
  assumes "RouteGenBatchState graph_data cost n_routes valid_terms weights fixed_routes = Inr s0"
    and "b < batch_size s0"
  shows "\<exists>vtm n cw. init_scenario cost (foldr max (map num_nodes graph_data) 0) vtm n cw
            (b, graph_data ! b) = Inr (scenarios s0 ! b) \<and> b < length graph_data
          \<and> vtm = (case valid_terms of None \<Rightarrow> replicate (length graph_data) (\<lambda>i j. \<not> eye i j)
                    | Some v \<Rightarrow> v)"
proof -
  let ?M = "foldr max (map num_nodes graph_data) 0"
  from assms(1) obtain vtm n cw scs where
    c: "collect (map (init_scenario cost ?M vtm n cw) (zip [0..<length graph_data] graph_data)) = Inr scs"
    and s0: "scenarios s0 = scs"
    and vtm: "vtm = (case valid_terms of None \<Rightarrow> replicate (length graph_data) (\<lambda>i j. \<not> eye i j)
                    | Some v \<Rightarrow> v)"
    by (auto simp: RouteGenBatchState_def Let_def split: if_splits sum.splits)
  from collect_Inr_length [OF c] have len: "length scs = length graph_data" by simp
  with assms(2) s0 have b: "b < length graph_data" by (simp add: batch_size_def)
  from collect_Inr_nth [OF c, of b] b
  have "init_scenario cost ?M vtm n cw (b, graph_data ! b) = Inr (scs ! b)" by simp
  with s0 b vtm show ?thesis by auto
qed

lemma RouteGenBatchState_max_n_nodes:
  assumes "RouteGenBatchState graph_data cost n_routes valid_terms weights fixed_routes = Inr s0"
  shows "max_n_nodes s0 = foldr max (map num_nodes graph_data) 0"
proof -
  let ?M = "foldr max (map num_nodes graph_data) 0"
  from assms obtain vtm n cw scs where
    c: "collect (map (init_scenario cost ?M vtm n cw) (zip [0..<length graph_data] graph_data)) = Inr scs"
    and s0: "scenarios s0 = scs"
    by (auto simp: RouteGenBatchState_def Let_def split: if_splits sum.splits)
  from collect_Inr_length [OF c] have len: "length scs = length graph_data" by simp
  have "map n_nodes_in_scenario scs = map num_nodes graph_data"
  proof (rule nth_equalityI)
    show "length (map n_nodes_in_scenario scs) = length (map num_nodes graph_data)"
      using len by simp
  next
    fix i assume "i < length (map n_nodes_in_scenario scs)"
    then have i: "i < length graph_data" using len by simp
    from collect_Inr_nth [OF c, of i] i
    have "init_scenario cost ?M vtm n cw (i, graph_data ! i) = Inr (scs ! i)" by simp
    from init_scenario_fields(14) [OF this] i len
    show "map n_nodes_in_scenario scs ! i = map num_nodes graph_data ! i" by simp
  qed
  with s0 show ?thesis by (simp add: max_n_nodes_def)
qed

subsection \<open>Clearing\<close>

lemma clear_routes_nth:
  "b < batch_size s \<Longrightarrow> scenarios (clear_routes s) ! b = clear_scenario (scenarios s ! b)"
  by (simp add: clear_routes_def clear_routes_helper_def batch_indices_def batch_size_def)

lemma clear_routes_batch_size: "batch_size (clear_routes s) = batch_size s"
  by (simp add: clear_routes_def clear_routes_helper_def batch_size_def)

section \<open>Facts about tensor entries\<close>

lemma nonneg_or_inf_cases:
  "nonneg_or_inf x \<longleftrightarrow> x = PInf \<or> (\<exists>r. x = Fin r \<and> 0 \<le> r \<and> r < overflow_threshold)"
  by (cases x) (simp_all add: nonneg_or_inf_def)

lemma nonneg_or_inf_not_nan: "nonneg_or_inf x \<Longrightarrow> \<not> is_nan x"
  by (cases x) (simp_all add: nonneg_or_inf_def)

lemma nonneg_or_inf_flt_PInf: "nonneg_or_inf x \<Longrightarrow> flt x PInf = isfinite x"
  by (cases x) (simp_all add: nonneg_or_inf_def)

lemma fminimum_nonneg_or_inf:
  "nonneg_or_inf a \<Longrightarrow> nonneg_or_inf b \<Longrightarrow> nonneg_or_inf (fminimum a b)"
  by (cases a; cases b) (simp_all add: nonneg_or_inf_def fminimum_def)

lemma fminimum_le_left: "\<not> is_nan a \<Longrightarrow> \<not> is_nan b \<Longrightarrow> fle (fminimum a b) a"
  by (cases a; cases b) (simp_all add: fminimum_def)

lemma fminimum_zero: "nonneg_or_inf b \<Longrightarrow> fminimum (Fin 0) b = Fin 0"
  by (cases b) (simp_all add: nonneg_or_inf_def fminimum_def)


lemma fle_flt_PInf: "fle a b \<Longrightarrow> flt b PInf \<Longrightarrow> flt a PInf"
  by (cases a; cases b) simp_all

lemma round_fl_nonneg_or_inf: "0 \<le> r \<Longrightarrow> nonneg_or_inf (round_fl r)"
  using overflow_threshold_pos by (simp add: round_fl_def nonneg_or_inf_def)

lemma fadd_no_penalty:
  "0 \<le> d \<Longrightarrow> d < overflow_threshold \<Longrightarrow> isfinite t \<Longrightarrow> fadd (Fin d) (fmul (of_int_fl 0) t) = Fin d"
  by (cases t) (simp_all add: of_int_fl_def round_fl_def)

lemma zero_no_penalty:
  "isfinite t \<Longrightarrow> \<exists>d\<ge>0. d < overflow_threshold \<and> Fin 0 = fadd (Fin d) (fmul (of_int_fl 0) t)"
  using fadd_no_penalty [of 0 t] by (intro exI [of _ 0]) simp

section \<open>The route-derivation refresh, scenario by scenario\<close>

lemma mark_directly_connected_length:
  "mark_directly_connected dcs counts edge_idxs = Inr r \<Longrightarrow> length dcs \<le> length counts \<and> length r = length dcs"
proof (induction dcs counts edge_idxs arbitrary: r rule: mark_directly_connected.induct)
  case (1 counts edge_idxs)
  then show ?case by simp
next
  case (2 dc dcs edge_idxs)
  then show ?case by simp
next
  case (3 dc dcs count counts edge_idxs)
  then show ?case by (auto simp: Let_def split: sum.splits prod.splits)
qed

lemma unique_counts_full:
  assumes "length entries \<le> length (unique_counts entries)"
  shows "\<forall>e\<in>set entries. e \<noteq> []"
proof -
  have "length (filter (\<lambda>e. e \<noteq> []) entries) = length entries"
    using assms length_filter_le [of "\<lambda>e. e \<noteq> []" entries] by (simp add: unique_counts_def)
  then have "filter (\<lambda>e. e \<noteq> []) entries = entries"
    by (metis filter_True length_filter_less linorder_neq_iff)
  then show ?thesis by (metis (mono_tags, lifting) filter_id_conv)
qed

lemma mark_directly_connected_aligned:
  assumes "\<forall>e\<in>set entries. e \<noteq> []" and "length dcs = length entries"
  shows "mark_directly_connected dcs (unique_counts entries) (concat entries) = Inr (map2 set_true dcs entries)"
  using assms
proof (induction dcs arbitrary: entries)
  case Nil
  then show ?case by simp
next
  case (Cons dc dcs)
  then obtain e es where es: "entries = e # es" by (cases entries) auto
  with Cons.prems have "e \<noteq> []" "\<forall>e\<in>set es. e \<noteq> []" "length dcs = length es" by auto
  with Cons.IH [of es] es show ?case by (simp add: unique_counts_def)
qed

lemma mark_directly_connected_Inr:
  assumes "mark_directly_connected dcs (unique_counts entries) (concat entries) = Inr r"
    and "length dcs = length entries"
  shows "r = map2 set_true dcs entries"
proof -
  from mark_directly_connected_length [OF assms(1)] assms(2)
  have "length entries \<le> length (unique_counts entries)" by simp
  from mark_directly_connected_aligned [OF unique_counts_full [OF this] assms(2)] assms(1)
  show ?thesis by simp
qed

lemma mark_scenario_zip:
  "map2 (\<lambda>sc dc. sc\<lparr>directly_connected := dc\<rparr>) scs
     (map2 set_true (map directly_connected scs) (map (\<lambda>sc. finite_entries M (route_mat sc)) scs))
   = map (mark_scenario M) scs"
  by (induction scs) (auto simp: mark_scenario_def)

lemma update_on_routes_scenarios:
  assumes "update_on_routes lib s update_routes f1 f2 = Inr s'"
  shows "length update_routes = batch_size s"
    and "scenarios s' = map2 (refresh_scenario lib (max_n_nodes s) (symmetric_routes s) f1 f2)
                          (scenarios s) update_routes"
    and "symmetric_routes s' = symmetric_routes s"
    and "shortest_path_sequences s' = shortest_path_sequences s"
proof -
  define M where "M = max_n_nodes s"
  define scs1 where
    "scs1 = map2 (merge_route_mat lib M (symmetric_routes s)) (scenarios s) update_routes"
  define entries where "entries = map (\<lambda>sc. finite_entries M (route_mat sc)) scs1"
  from assms show len: "length update_routes = batch_size s"
    by (auto simp: update_on_routes_def split: if_splits)
  from assms len obtain dcs where
    m: "mark_directly_connected (map directly_connected scs1) (unique_counts entries) (concat entries) = Inr dcs"
    and s': "s' = s\<lparr>scenarios := map (update_transit lib M)
                (map (\<lambda>sc. sc\<lparr>valid_terms_mat := update_valid_terms_mat M (symmetric_routes s) f1 f2 sc\<rparr>)
                   (map2 (\<lambda>sc dc. sc\<lparr>directly_connected := dc\<rparr>) scs1 dcs))\<rparr>"
    unfolding update_on_routes_def Let_def M_def scs1_def entries_def
    by (auto split: if_splits sum.splits prod.splits)
  have "dcs = map2 set_true (map directly_connected scs1) entries"
    by (rule mark_directly_connected_Inr [OF m]) (simp add: entries_def)
  then have "map2 (\<lambda>sc dc. sc\<lparr>directly_connected := dc\<rparr>) scs1 dcs = map (mark_scenario M) scs1"
    unfolding entries_def using mark_scenario_zip [of scs1 M] by simp
  then have "scenarios s' = map (\<lambda>sc. update_transit lib M
                (sc\<lparr>valid_terms_mat := update_valid_terms_mat M (symmetric_routes s) f1 f2 sc\<rparr>))
                (map (mark_scenario M) scs1)"
    by (simp add: s' comp_def)
  then show "scenarios s' = map2 (refresh_scenario lib (max_n_nodes s) (symmetric_routes s) f1 f2)
                              (scenarios s) update_routes"
    unfolding scs1_def M_def by (simp add: refresh_scenario_def Let_def comp_def split_def)
  show "symmetric_routes s' = symmetric_routes s" "shortest_path_sequences s' = shortest_path_sequences s"
    by (simp_all add: s')
qed

lemma refresh_scenario_frame [simp]:
  "finished_routes (refresh_scenario lib M symm f1 f2 sc upd) = finished_routes sc"
  "total_route_time (refresh_scenario lib M symm f1 f2 sc upd) = total_route_time sc"
  "current_routes (refresh_scenario lib M symm f1 f2 sc upd) = current_routes sc"
  "current_route_time (refresh_scenario lib M symm f1 f2 sc upd) = current_route_time sc"
  "drive_times (refresh_scenario lib M symm f1 f2 sc upd) = drive_times sc"
  "demand (refresh_scenario lib M symm f1 f2 sc upd) = demand sc"
  "nexts (refresh_scenario lib M symm f1 f2 sc upd) = nexts sc"
  "mean_stop_time (refresh_scenario lib M symm f1 f2 sc upd) = mean_stop_time sc"
  "transfer_time_s (refresh_scenario lib M symm f1 f2 sc upd) = transfer_time_s sc"
  "n_routes_to_plan (refresh_scenario lib M symm f1 f2 sc upd) = n_routes_to_plan sc"
  "min_route_len (refresh_scenario lib M symm f1 f2 sc upd) = min_route_len sc"
  "max_route_len (refresh_scenario lib M symm f1 f2 sc upd) = max_route_len sc"
  "n_nodes_in_scenario (refresh_scenario lib M symm f1 f2 sc upd) = n_nodes_in_scenario sc"
  "base_valid_terms_mat (refresh_scenario lib M symm f1 f2 sc upd) = base_valid_terms_mat sc"
  "cost_weights (refresh_scenario lib M symm f1 f2 sc upd) = cost_weights sc"
  by (simp_all add: refresh_scenario_def update_transit_def mark_scenario_def merge_route_mat_def
                    Let_def split_def)

lemma refresh_scenario_route_mat:
  "route_mat (refresh_scenario lib M symm f1 f2 sc upd) i j =
     (if i < M \<and> j < M
      then fminimum (route_mat sc i j)
             (get_route_edge_matrix lib M upd (drive_times sc) (mean_stop_time sc) symm i j)
      else route_mat sc i j)"
  by (simp add: refresh_scenario_def update_transit_def mark_scenario_def merge_route_mat_def
                Let_def split_def)

lemma finite_entries_iff:
  "(i, j) \<in> set (finite_entries M A) \<longleftrightarrow> i < M \<and> j < M \<and> flt (A i j) PInf"
  by (auto simp: finite_entries_def)

lemma refresh_scenario_directly_connected:
  "directly_connected (refresh_scenario lib M symm f1 f2 sc upd) i j =
     (directly_connected sc i j \<or>
      (i < M \<and> j < M \<and> flt (route_mat (refresh_scenario lib M symm f1 f2 sc upd) i j) PInf))"
  by (simp add: refresh_scenario_def update_transit_def mark_scenario_def merge_route_mat_def
                Let_def split_def set_true_def finite_entries_iff)

lemma refresh_scenario_fields:
  fixes lib M symm f1 f2 sc upd
  defines "sc' \<equiv> refresh_scenario lib M symm f1 f2 sc upd"
  defines "tt \<equiv> snd (floyd_warshall lib M (route_mat sc'))"
  shows "has_path sc' i j = flt (tt i j) PInf"
    and "n_transfers sc' i j \<ge> 0"
    and "\<not> flt (tt i j) PInf \<Longrightarrow> n_transfers sc' i j = 0"
    and "transit_times sc' i j = fadd (tt i j) (fmul (of_int_fl (n_transfers sc' i j)) (transfer_time_s sc))"
  by (simp_all add: tt_def sc'_def refresh_scenario_def update_transit_def mark_scenario_def
                    merge_route_mat_def Let_def split_def)

lemma refresh_scenario_inv:
  assumes lib: "lib_ok lib" and inv: "scenario_inv M sc"
  shows "scenario_inv M (refresh_scenario lib M symm f1 f2 sc upd)"
proof -
  define sc' where "sc' = refresh_scenario lib M symm f1 f2 sc upd"
  define new where "new = get_route_edge_matrix lib M upd (drive_times sc) (mean_stop_time sc) symm"
  define tt where "tt = snd (floyd_warshall lib M (route_mat sc'))"
  from inv have dt: "mat_ok M (drive_times sc)" and mst: "nonneg_or_inf (mean_stop_time sc)"
    and tts: "isfinite (transfer_time_s sc)" and rm: "mat_ok M (route_mat sc)"
    and diag: "\<And>i. i < M \<Longrightarrow> route_mat sc i i = Fin 0"
    and dc: "\<And>i j. i < M \<Longrightarrow> j < M \<Longrightarrow> directly_connected sc i j = flt (route_mat sc i j) PInf"
    and cur: "length (current_routes sc) = M" "\<forall>x\<in>set (current_routes sc). - 1 \<le> x"
    by (simp_all add: scenario_inv_def)
  from lib dt mst have new: "mat_ok M new"
    unfolding new_def lib_ok_def edge_matrix_ok_def by blast
  have rm': "route_mat sc' i j = fminimum (route_mat sc i j) (new i j)" if "i < M" "j < M" for i j
    using that by (simp add: sc'_def new_def refresh_scenario_route_mat)
  have rm'_ok: "mat_ok M (route_mat sc')"
    using rm new by (simp add: mat_ok_def rm' fminimum_nonneg_or_inf)
  have diag': "route_mat sc' i i = Fin 0" if "i < M" for i
    using that new by (simp add: rm' diag mat_ok_def fminimum_zero)
  have le: "fle (route_mat sc' i j) (route_mat sc i j)" if "i < M" "j < M" for i j
    using that rm new by (simp add: rm' mat_ok_def fminimum_le_left nonneg_or_inf_not_nan)
  have dc': "directly_connected sc' i j = flt (route_mat sc' i j) PInf" if "i < M" "j < M" for i j
    using that dc [OF that] le [OF that] fle_flt_PInf
    by (auto simp: sc'_def refresh_scenario_directly_connected)
  from lib rm'_ok have tt: "mat_ok M tt"
    and tt_le: "\<And>i j. i < M \<Longrightarrow> j < M \<Longrightarrow> fle (tt i j) (route_mat sc' i j)"
    unfolding tt_def lib_ok_def floyd_warshall_ok_def by blast+
  note ut = refresh_scenario_fields [of lib M symm f1 f2 sc upd, folded sc'_def, folded tt_def]
  have hp: "has_path sc' i j = isfinite (tt i j)" if "i < M" "j < M" for i j
    using that tt by (simp add: ut(1) mat_ok_def nonneg_or_inf_flt_PInf)
  have tts': "transfer_time_s sc' = transfer_time_s sc" by (simp add: sc'_def)
  have fin1: "isfinite (transit_times sc' i j) \<longrightarrow> has_path sc' i j" if "i < M" "j < M" for i j
    using isfinite_fadd [of "tt i j"] hp [OF that] by (subst ut(4)) blast
  have fin2: "has_path sc' i j \<longrightarrow>
            (\<exists>d. 0 \<le> d \<and> d < overflow_threshold
               \<and> transit_times sc' i j =
                   fadd (Fin d) (fmul (of_int_fl (n_transfers sc' i j)) (transfer_time_s sc')))"
    if "i < M" "j < M" for i j
  proof
    assume "has_path sc' i j"
    with hp [OF that] have f: "isfinite (tt i j)" by simp
    from that tt have "nonneg_or_inf (tt i j)" by (simp add: mat_ok_def)
    with f obtain d where "tt i j = Fin d" "0 \<le> d" "d < overflow_threshold"
      by (auto simp: nonneg_or_inf_cases)
    with ut(4) [of i j] tts' show "\<exists>d. 0 \<le> d \<and> d < overflow_threshold
               \<and> transit_times sc' i j =
                   fadd (Fin d) (fmul (of_int_fl (n_transfers sc' i j)) (transfer_time_s sc'))"
      by auto
  qed
  have dchp: "directly_connected sc' i j \<longrightarrow> has_path sc' i j" if "i < M" "j < M" for i j
    using that dc' [OF that] tt_le [OF that] fle_flt_PInf by (auto simp: ut(1))
  show ?thesis
    unfolding scenario_inv_def sc'_def [symmetric]
    using dt mst tts rm'_ok diag' dc' fin1 fin2 dchp ut(2) cur
    by (simp add: sc'_def [symmetric] tts') (simp add: sc'_def)
qed

lemma map2_nth:
  "b < length xs \<Longrightarrow> b < length ys \<Longrightarrow> map2 f xs ys ! b = f (xs ! b) (ys ! b)"
  by simp

lemma update_on_routes_nth:
  assumes "update_on_routes lib s update_routes f1 f2 = Inr s'" and "b < batch_size s"
  shows "scenarios s' ! b =
           refresh_scenario lib (max_n_nodes s) (symmetric_routes s) f1 f2 (scenarios s ! b)
             (update_routes ! b)"
  using update_on_routes_scenarios(1,2) [OF assms(1)] assms(2)
  by (simp add: batch_size_def)

lemma update_on_routes_sizes:
  assumes "update_on_routes lib s update_routes f1 f2 = Inr s'"
  shows "batch_size s' = batch_size s" and "max_n_nodes s' = max_n_nodes s"
proof -
  note u = update_on_routes_scenarios(1,2) [OF assms]
  show "batch_size s' = batch_size s" using u by (simp add: batch_size_def)
  have "map n_nodes_in_scenario (scenarios s') = map n_nodes_in_scenario (scenarios s)"
    using u by (intro nth_equalityI) (simp_all add: batch_size_def)
  then show "max_n_nodes s' = max_n_nodes s" by (simp add: max_n_nodes_def)
qed

lemma update_on_routes_inv:
  assumes "lib_ok lib" and "state_inv s" and "update_on_routes lib s update_routes f1 f2 = Inr s'"
  shows "state_inv s'"
proof -
  note u = update_on_routes_scenarios(1,2) [OF assms(3)]
  have "scenario_inv (max_n_nodes s') sc" if "sc \<in> set (scenarios s')" for sc
  proof -
    from that u obtain b where b: "b < batch_size s" and sc: "sc = scenarios s' ! b"
      by (auto simp: in_set_conv_nth batch_size_def)
    from b assms(2) have "scenario_inv (max_n_nodes s) (scenarios s ! b)"
      by (simp add: state_inv_def batch_size_def)
    from refresh_scenario_inv [OF assms(1) this] update_on_routes_nth [OF assms(3) b]
      update_on_routes_sizes(2) [OF assms(3)] sc
    show ?thesis by simp
  qed
  then show ?thesis by (simp add: state_inv_def)
qed

section \<open>The action, scenario by scenario\<close>

lemma get_shortest_path_sequences_frame:
  "scenarios (snd (get_shortest_path_sequences lib s)) = scenarios s"
  "symmetric_routes (snd (get_shortest_path_sequences lib s)) = symmetric_routes s"
  "batch_size (snd (get_shortest_path_sequences lib s)) = batch_size s"
  "max_n_nodes (snd (get_shortest_path_sequences lib s)) = max_n_nodes s"
  by (simp_all add: get_shortest_path_sequences_def Let_def batch_size_def max_n_nodes_def
               split: option.splits)

lemma index_put_length: "length (index_put rows pos vals) = length rows"
  by (induction rows pos vals rule: index_put.induct) simp_all

lemma fold_update_length:
  "length (fold (\<lambda>(l, v) r. r[l := v]) ps (row :: int list)) = length row"
  by (induction ps arbitrary: row) (auto simp: split_def)

lemma index_put_row_length:
  "b < length rows \<Longrightarrow> length (index_put rows pos vals ! b) = length (rows ! b)"
proof (induction rows pos vals arbitrary: b rule: index_put.induct)
  case (1 uu vals)
  then show ?case by simp
next
  case (2 row rows vals)
  then show ?case by simp
next
  case (3 row rows p ps vals)
  then show ?case by (cases b) (simp_all add: fold_update_length)
qed

lemma index_put_nth_nil:
  "b < length rows \<Longrightarrow> b < length pos \<Longrightarrow> pos ! b = [] \<Longrightarrow> index_put rows pos vals ! b = rows ! b"
proof (induction rows pos vals arbitrary: b rule: index_put.induct)
  case (1 uu vals)
  then show ?case by simp
next
  case (2 row rows vals)
  then show ?case by simp
next
  case (3 row rows p ps vals)
  then show ?case by (cases b) simp_all
qed

lemma masked_assign_rows:
  assumes "masked_assign rows masks vals = Inr ur"
  shows "length ur = length rows"
    and "b < length rows \<Longrightarrow> length (ur ! b) = length (rows ! b)"
    and "b < length rows \<Longrightarrow> b < length masks \<Longrightarrow> mask_positions (masks ! b) = [] \<Longrightarrow> ur ! b = rows ! b"
  using assms
  by (auto simp: masked_assign_def Let_def index_put_length index_put_row_length index_put_nth_nil
           split: if_splits)

lemma place_first_parts_Inr:
  "place_first_parts M fp = Inr row \<Longrightarrow> row = fp @ replicate (M - length fp) (- 1) \<and> length row = M"
  by (auto simp: place_first_parts_def split: if_splits)

lemma build_updated_routes_Inr:
  assumes "build_updated_routes M scs masks new_parts = Inr ur"
    and "length masks = length scs" and "length new_parts = length scs"
  shows "length ur = length scs"
    and "b < length scs \<Longrightarrow> length (ur ! b) = M"
    and "b < length scs \<Longrightarrow> \<forall>x\<in>set (ur ! b). - 1 \<le> x"
    and "b < length scs \<Longrightarrow> length (new_parts ! b) = length (current_routes (scs ! b))"
    and "b < length scs \<Longrightarrow>
         n_stops (second_parts (masks ! b) (new_parts ! b) (current_routes (scs ! b))) = 0 \<Longrightarrow>
         ur ! b = map (max (- 1))
                    (first_parts (masks ! b) (new_parts ! b) (current_routes (scs ! b)) @
                     replicate (M - length (first_parts (masks ! b) (new_parts ! b) (current_routes (scs ! b)))) (- 1))"
proof -
  define fps where "fps = map (\<lambda>(m, np, sc). first_parts m np (current_routes sc))
                            (zip masks (zip new_parts scs))"
  define sps where "sps = map (\<lambda>(m, np, sc). second_parts m np (current_routes sc))
                            (zip masks (zip new_parts scs))"
  define msk where "msk = map2 (get_variable_slice_mask M) (map n_stops fps)
                            (map2 (+) (map n_stops fps) (map n_stops sps))"
  from assms(1) obtain rows ur0 vals where
    lens: "list_all (\<lambda>(sc, np). length np = length (current_routes sc)) (zip scs new_parts)"
    and rows: "collect (map (place_first_parts M) fps) = Inr rows"
    and ma: "masked_assign rows msk vals = Inr ur0"
    and ur: "ur = map (map (max (- 1))) ur0"
    unfolding build_updated_routes_def Let_def fps_def sps_def msk_def
    by (auto split: if_splits sum.splits)
  have lfps: "length fps = length scs" "length sps = length scs"
    using assms(2,3) by (simp_all add: fps_def sps_def)
  have lrows: "length rows = length scs"
    using collect_Inr_length [OF rows] lfps by simp
  have row: "rows ! b = fps ! b @ replicate (M - length (fps ! b)) (- 1) \<and> length (rows ! b) = M"
    if "b < length scs" for b
  proof -
    from collect_Inr_nth [OF rows, of b] that lfps
    have "place_first_parts M (fps ! b) = Inr (rows ! b)" by simp
    then show ?thesis by (rule place_first_parts_Inr)
  qed
  note m = masked_assign_rows [OF ma]
  show "length ur = length scs" using m(1) lrows ur by simp
  show "length (ur ! b) = M" if "b < length scs"
  proof -
    from row [OF that] have "length (rows ! b) = M" by blast
    with that m(1) m(2) [of b] lrows ur show ?thesis by simp
  qed
  show "\<forall>x\<in>set (ur ! b). - 1 \<le> x" if "b < length scs"
    using that m(1) lrows ur by auto
  show np: "length (new_parts ! b) = length (current_routes (scs ! b))" if "b < length scs"
    using that lens assms(3) by (auto simp: list_all_length)
  show "ur ! b = map (max (- 1))
                    (first_parts (masks ! b) (new_parts ! b) (current_routes (scs ! b)) @
                     replicate (M - length (first_parts (masks ! b) (new_parts ! b) (current_routes (scs ! b)))) (- 1))"
    if b: "b < length scs"
      and z: "n_stops (second_parts (masks ! b) (new_parts ! b) (current_routes (scs ! b))) = 0"
  proof -
    have fb: "fps ! b = first_parts (masks ! b) (new_parts ! b) (current_routes (scs ! b))"
      and sb: "sps ! b = second_parts (masks ! b) (new_parts ! b) (current_routes (scs ! b))"
      using b assms(2,3) by (simp_all add: fps_def sps_def)
    have "msk ! b = get_variable_slice_mask M (n_stops (fps ! b)) (n_stops (fps ! b) + n_stops (sps ! b))"
      using b lfps by (simp add: msk_def)
    then have "mask_positions (msk ! b) = []"
      using z sb by (simp add: mask_positions_def get_variable_slice_mask_def filter_empty_conv)
    moreover have "b < length msk" using b lfps by (simp add: msk_def)
    ultimately have "ur0 ! b = rows ! b" using m(3) [of b] b lrows by simp
    moreover from row [OF b] have "rows ! b = fps ! b @ replicate (M - length (fps ! b)) (- 1)"
      by blast
    ultimately show ?thesis using fb b m(1) lrows ur by simp
  qed
qed

lemma finish_route_frame:
  "drive_times (fst (finish_route sc d row)) = drive_times sc"
  "mean_stop_time (fst (finish_route sc d row)) = mean_stop_time sc"
  "transfer_time_s (fst (finish_route sc d row)) = transfer_time_s sc"
  "route_mat (fst (finish_route sc d row)) = route_mat sc"
  "directly_connected (fst (finish_route sc d row)) = directly_connected sc"
  "has_path (fst (finish_route sc d row)) = has_path sc"
  "transit_times (fst (finish_route sc d row)) = transit_times sc"
  "n_transfers (fst (finish_route sc d row)) = n_transfers sc"
  "valid_terms_mat (fst (finish_route sc d row)) = valid_terms_mat sc"
  "n_nodes_in_scenario (fst (finish_route sc d row)) = n_nodes_in_scenario sc"
  "n_routes_to_plan (fst (finish_route sc d row)) = n_routes_to_plan sc"
  "length (snd (finish_route sc d row)) = length row"
  "(\<forall>x\<in>set row. - 1 \<le> x) \<Longrightarrow> \<forall>x\<in>set (snd (finish_route sc d row)). - 1 \<le> x"
  by (auto simp: finish_route_def Let_def)

lemma set_current_route_frame:
  "drive_times (set_current_route lib M symm p) = drive_times (fst p)"
  "mean_stop_time (set_current_route lib M symm p) = mean_stop_time (fst p)"
  "transfer_time_s (set_current_route lib M symm p) = transfer_time_s (fst p)"
  "route_mat (set_current_route lib M symm p) = route_mat (fst p)"
  "directly_connected (set_current_route lib M symm p) = directly_connected (fst p)"
  "has_path (set_current_route lib M symm p) = has_path (fst p)"
  "transit_times (set_current_route lib M symm p) = transit_times (fst p)"
  "n_transfers (set_current_route lib M symm p) = n_transfers (fst p)"
  "valid_terms_mat (set_current_route lib M symm p) = valid_terms_mat (fst p)"
  "n_nodes_in_scenario (set_current_route lib M symm p) = n_nodes_in_scenario (fst p)"
  "n_routes_to_plan (set_current_route lib M symm p) = n_routes_to_plan (fst p)"
  "finished_routes (set_current_route lib M symm p) = finished_routes (fst p)"
  "total_route_time (set_current_route lib M symm p) = total_route_time (fst p)"
  "current_routes (set_current_route lib M symm p) = snd p"
  by (simp_all add: set_current_route_def Let_def)

lemma shortest_path_action_Inr:
  assumes "shortest_path_action lib s path_indices = Inr s'"
  shows "\<exists>masks new_parts ur.
           length path_indices = batch_size s
         \<and> collect (map2 get_action_masks (scenarios s) path_indices) = Inr masks
         \<and> length masks = batch_size s \<and> length new_parts = batch_size s
         \<and> list_all valid_action masks
         \<and> build_updated_routes (max_n_nodes s) (scenarios s) masks new_parts = Inr ur
         \<and> (\<forall>b<batch_size s. scenarios s' ! b =
               step_scenario lib (max_n_nodes s) (symmetric_routes s) (scenarios s ! b)
                 (masks ! b) (ur ! b))
         \<and> batch_size s' = batch_size s \<and> max_n_nodes s' = max_n_nodes s
         \<and> symmetric_routes s' = symmetric_routes s"
proof -
  define M where "M = max_n_nodes s"
  define path_seqs where "path_seqs = fst (get_shortest_path_sequences lib s)"
  define s1 where "s1 = snd (get_shortest_path_sequences lib s)"
  define gathered where
    "gathered = map (\<lambda>(sc, ps, uv). gather_new_parts M ps uv (length (current_routes sc)))
                  (zip (scenarios s) (zip path_seqs path_indices))"
  from assms have len: "length path_indices = batch_size s" "batch_size s \<le> length path_seqs"
    unfolding shortest_path_action_def Let_def split_def path_seqs_def
    by (auto split: if_splits)
  from assms len obtain new_parts masks ur where
    np: "collect gathered = Inr new_parts"
    and masks: "collect (map2 get_action_masks (scenarios s) path_indices) = Inr masks"
    and valid: "list_all valid_action masks"
    and ur: "build_updated_routes M (scenarios s) masks new_parts = Inr ur"
    and upd: "update_on_routes lib
                (s1\<lparr>scenarios := map (set_current_route lib M (symmetric_routes s))
                   (map (\<lambda>(sc, m, row). finish_route sc (routes_are_done m) row)
                      (zip (scenarios s) (zip masks ur)))\<rparr>)
                (map (\<lambda>p. [snd p])
                   (map (\<lambda>(sc, m, row). finish_route sc (routes_are_done m) row)
                      (zip (scenarios s) (zip masks ur)))) False False = Inr s'"
    unfolding shortest_path_action_def Let_def split_def path_seqs_def s1_def M_def gathered_def
    by (auto split: if_splits sum.splits)
  have lnp: "length new_parts = batch_size s"
    using collect_Inr_length [OF np] len by (simp add: gathered_def batch_size_def)
  have lm: "length masks = batch_size s"
    using collect_Inr_length [OF masks] len by (simp add: batch_size_def)
  have lur: "length ur = batch_size s"
    using build_updated_routes_Inr(1) [OF ur] lm lnp by (simp add: batch_size_def)
  define s2 where "s2 = s1\<lparr>scenarios := map (set_current_route lib M (symmetric_routes s))
                   (map (\<lambda>(sc, m, row). finish_route sc (routes_are_done m) row)
                      (zip (scenarios s) (zip masks ur)))\<rparr>"
  have bs2: "batch_size s2 = batch_size s"
    using lm lur by (simp add: s2_def batch_size_def)
  have sc2: "scenarios s2 ! b = set_current_route lib M (symmetric_routes s)
               (finish_route (scenarios s ! b) (routes_are_done (masks ! b)) (ur ! b))"
    if "b < batch_size s" for b
    using that lm lur by (simp add: s2_def batch_size_def)
  have "map n_nodes_in_scenario (scenarios s2) = map n_nodes_in_scenario (scenarios s)"
    using bs2 sc2
    by (intro nth_equalityI)
       (simp_all add: batch_size_def set_current_route_frame finish_route_frame)
  then have M2: "max_n_nodes s2 = M" by (simp add: max_n_nodes_def M_def)
  have sym2: "symmetric_routes s2 = symmetric_routes s"
    by (simp add: s2_def s1_def get_shortest_path_sequences_frame)
  from upd have upd2: "update_on_routes lib s2
                (map (\<lambda>p. [snd p])
                   (map (\<lambda>(sc, m, row). finish_route sc (routes_are_done m) row)
                      (zip (scenarios s) (zip masks ur)))) False False = Inr s'"
    by (simp add: s2_def)
  have step: "scenarios s' ! b =
               step_scenario lib M (symmetric_routes s) (scenarios s ! b) (masks ! b) (ur ! b)"
    if "b < batch_size s" for b
    using update_on_routes_nth [OF upd2, of b] that bs2 sc2 [OF that] M2 sym2 lm lur
    by (simp add: step_scenario_def Let_def batch_size_def)
  from update_on_routes_sizes [OF upd2] update_on_routes_scenarios(3) [OF upd2] bs2 M2 sym2
  have "batch_size s' = batch_size s" "max_n_nodes s' = max_n_nodes s"
    "symmetric_routes s' = symmetric_routes s"
    by (simp_all add: M_def)
  with len masks lm lnp valid ur step show ?thesis
    unfolding M_def by blast
qed

lemma step_scenario_inv:
  assumes lib: "lib_ok lib" and inv: "scenario_inv M sc"
    and row: "length row = M" "\<forall>x\<in>set row. - 1 \<le> x"
  shows "scenario_inv M (step_scenario lib M symm sc m row)"
proof -
  have "scenario_inv M (set_current_route lib M symm (finish_route sc (routes_are_done m) row))"
    using inv row finish_route_frame(13) [of row sc "routes_are_done m"]
    unfolding scenario_inv_def set_current_route_frame finish_route_frame
    by blast
  from refresh_scenario_inv [OF lib this] show ?thesis
    by (simp add: step_scenario_def Let_def)
qed

lemma shortest_path_action_inv:
  assumes "lib_ok lib" and "state_inv s" and "shortest_path_action lib s path_indices = Inr s'"
  shows "state_inv s'"
proof -
  from shortest_path_action_Inr [OF assms(3)] obtain masks new_parts ur where
    lm: "length masks = batch_size s" and lnp: "length new_parts = batch_size s"
    and ur: "build_updated_routes (max_n_nodes s) (scenarios s) masks new_parts = Inr ur"
    and step: "\<And>b. b < batch_size s \<Longrightarrow> scenarios s' ! b =
               step_scenario lib (max_n_nodes s) (symmetric_routes s) (scenarios s ! b)
                 (masks ! b) (ur ! b)"
    and sz: "batch_size s' = batch_size s" "max_n_nodes s' = max_n_nodes s"
    by blast
  have "scenario_inv (max_n_nodes s') sc" if "sc \<in> set (scenarios s')" for sc
  proof -
    from that sz obtain b where b: "b < batch_size s" and sc: "sc = scenarios s' ! b"
      by (auto simp: in_set_conv_nth batch_size_def)
    from b assms(2) have i: "scenario_inv (max_n_nodes s) (scenarios s ! b)"
      by (simp add: state_inv_def batch_size_def)
    from b lm lnp build_updated_routes_Inr(2,3) [OF ur, of b]
    have "length (ur ! b) = max_n_nodes s" "\<forall>x\<in>set (ur ! b). - 1 \<le> x"
      by (simp_all add: batch_size_def)
    from step_scenario_inv [OF assms(1) i this] step [OF b] sc sz show ?thesis by simp
  qed
  then show ?thesis by (simp add: state_inv_def)
qed

section \<open>The invariant of the reachable states\<close>

lemma add_new_routes_Inr:
  assumes "add_new_routes lib s batch_new_routes f1 f2 = Inr s'"
  shows "length batch_new_routes = batch_size s"
    and "b < batch_size s \<Longrightarrow> scenarios s' ! b =
           refresh_scenario lib (max_n_nodes s) (symmetric_routes s) f1 f2
             (add_scenario lib (max_n_nodes s) (symmetric_routes s) (scenarios s ! b)
                (batch_new_routes ! b))
             (batch_new_routes ! b)"
    and "batch_size s' = batch_size s" and "max_n_nodes s' = max_n_nodes s"
    and "symmetric_routes s' = symmetric_routes s"
proof -
  define M where "M = max_n_nodes s"
  define s2 where "s2 = s\<lparr>scenarios :=
      map2 (\<lambda>sc new_routes. sc\<lparr>total_route_time := fadd (total_route_time sc)
              (get_total_route_time lib M (symmetric_routes s) sc new_routes)\<rparr>)
        (map2 add_finished_routes (scenarios s) batch_new_routes) batch_new_routes\<rparr>"
  from assms have ge: "batch_size s \<le> length batch_new_routes"
    and upd: "update_on_routes lib s2 batch_new_routes f1 f2 = Inr s'"
    unfolding add_new_routes_def Let_def s2_def M_def by (auto split: if_splits)
  have bs2: "batch_size s2 = batch_size s"
    using ge by (simp add: s2_def batch_size_def)
  from update_on_routes_scenarios(1) [OF upd] bs2
  show len: "length batch_new_routes = batch_size s" by simp
  have sc2: "scenarios s2 ! b = add_scenario lib M (symmetric_routes s) (scenarios s ! b)
               (batch_new_routes ! b)" if "b < batch_size s" for b
    using that len
    by (simp add: s2_def batch_size_def add_scenario_def add_finished_routes_def
                  get_total_route_time_def)
  have "map n_nodes_in_scenario (scenarios s2) = map n_nodes_in_scenario (scenarios s)"
    using bs2 sc2
    by (intro nth_equalityI)
       (simp_all add: batch_size_def add_scenario_def add_finished_routes_def)
  then have M2: "max_n_nodes s2 = M" by (simp add: max_n_nodes_def M_def)
  have sym2: "symmetric_routes s2 = symmetric_routes s" by (simp add: s2_def)
  show "scenarios s' ! b =
           refresh_scenario lib (max_n_nodes s) (symmetric_routes s) f1 f2
             (add_scenario lib (max_n_nodes s) (symmetric_routes s) (scenarios s ! b)
                (batch_new_routes ! b))
             (batch_new_routes ! b)" if "b < batch_size s"
    using update_on_routes_nth [OF upd, of b] that bs2 sc2 [OF that] M2 sym2
    by (simp add: M_def)
  from update_on_routes_sizes [OF upd] update_on_routes_scenarios(3) [OF upd] bs2 M2 sym2
  show "batch_size s' = batch_size s" "max_n_nodes s' = max_n_nodes s"
    "symmetric_routes s' = symmetric_routes s"
    by (simp_all add: M_def)
qed

lemma add_scenario_frame:
  "drive_times (add_scenario lib M symm sc new) = drive_times sc"
  "demand (add_scenario lib M symm sc new) = demand sc"
  "mean_stop_time (add_scenario lib M symm sc new) = mean_stop_time sc"
  "transfer_time_s (add_scenario lib M symm sc new) = transfer_time_s sc"
  "route_mat (add_scenario lib M symm sc new) = route_mat sc"
  "directly_connected (add_scenario lib M symm sc new) = directly_connected sc"
  "has_path (add_scenario lib M symm sc new) = has_path sc"
  "transit_times (add_scenario lib M symm sc new) = transit_times sc"
  "n_transfers (add_scenario lib M symm sc new) = n_transfers sc"
  "valid_terms_mat (add_scenario lib M symm sc new) = valid_terms_mat sc"
  "current_routes (add_scenario lib M symm sc new) = current_routes sc"
  "n_routes_to_plan (add_scenario lib M symm sc new) = n_routes_to_plan sc"
  by (simp_all add: add_scenario_def add_finished_routes_def)

lemma add_new_routes_inv:
  assumes "lib_ok lib" and "state_inv s" and "add_new_routes lib s batch_new_routes f1 f2 = Inr s'"
  shows "state_inv s'"
proof -
  note a = add_new_routes_Inr [OF assms(3)]
  have "scenario_inv (max_n_nodes s') sc" if "sc \<in> set (scenarios s')" for sc
  proof -
    from that a(3) obtain b where b: "b < batch_size s" and sc: "sc = scenarios s' ! b"
      by (auto simp: in_set_conv_nth batch_size_def)
    from b assms(2) have "scenario_inv (max_n_nodes s) (scenarios s ! b)"
      by (simp add: state_inv_def batch_size_def)
    then have "scenario_inv (max_n_nodes s)
                 (add_scenario lib (max_n_nodes s) (symmetric_routes s) (scenarios s ! b)
                    (batch_new_routes ! b))"
      unfolding scenario_inv_def add_scenario_frame by blast
    from refresh_scenario_inv [OF assms(1) this] a(2) [OF b] a(4) sc show ?thesis by simp
  qed
  then show ?thesis by (simp add: state_inv_def)
qed

lemma clear_scenario_inv:
  assumes "scenario_inv M sc"
  shows "scenario_inv M (clear_scenario sc)"
  using assms
  by (auto simp: scenario_inv_def clear_scenario_def Let_def mat_ok_def initial_transit_times_eq
                 nonneg_or_inf_def eye_def zeros_long_def zero_no_penalty)

lemma clear_routes_helper_scenarios:
  "batch_size (clear_routes_helper s ix) = batch_size s"
  "max_n_nodes (clear_routes_helper s ix) = max_n_nodes s"
  "symmetric_routes (clear_routes_helper s ix) = symmetric_routes s"
  "b < batch_size s \<Longrightarrow> scenarios (clear_routes_helper s ix) ! b = scenarios s ! b
     \<or> scenarios (clear_routes_helper s ix) ! b = clear_scenario (scenarios s ! b)"
proof -
  show "batch_size (clear_routes_helper s ix) = batch_size s"
    by (simp add: clear_routes_helper_def batch_size_def Let_def)
  have "map n_nodes_in_scenario (scenarios (clear_routes_helper s ix)) = map n_nodes_in_scenario (scenarios s)"
    by (intro nth_equalityI)
       (simp_all add: clear_routes_helper_def batch_size_def Let_def clear_scenario_def)
  then show "max_n_nodes (clear_routes_helper s ix) = max_n_nodes s" by (simp add: max_n_nodes_def)
  show "symmetric_routes (clear_routes_helper s ix) = symmetric_routes s"
    by (simp add: clear_routes_helper_def Let_def)
  show "b < batch_size s \<Longrightarrow> scenarios (clear_routes_helper s ix) ! b = scenarios s ! b
     \<or> scenarios (clear_routes_helper s ix) ! b = clear_scenario (scenarios s ! b)"
    by (simp add: clear_routes_helper_def batch_size_def Let_def)
qed

lemma clear_routes_helper_inv:
  assumes "state_inv s"
  shows "state_inv (clear_routes_helper s ix)"
proof -
  note c = clear_routes_helper_scenarios [where s=s and ix=ix]
  have "scenario_inv (max_n_nodes (clear_routes_helper s ix)) sc"
    if "sc \<in> set (scenarios (clear_routes_helper s ix))" for sc
  proof -
    from that c(1) obtain b where b: "b < batch_size s"
      and sc: "sc = scenarios (clear_routes_helper s ix) ! b"
      by (auto simp: in_set_conv_nth batch_size_def)
    from b assms have "scenario_inv (max_n_nodes s) (scenarios s ! b)"
      by (simp add: state_inv_def batch_size_def)
    with clear_scenario_inv [OF this] c(4) [OF b] sc c(2) show ?thesis by auto
  qed
  then show ?thesis by (simp add: state_inv_def)
qed

lemma constructed_inv:
  assumes "RouteGenBatchState graph_data cost n_routes valid_terms weights fixed_routes = Inr s"
    and "input_ok graph_data cost"
  shows "state_inv s"
proof -
  note M = RouteGenBatchState_max_n_nodes [OF assms(1)]
  have "scenario_inv (max_n_nodes s) sc" if "sc \<in> set (scenarios s)" for sc
  proof -
    from that obtain b where b: "b < batch_size s" and sc: "sc = scenarios s ! b"
      by (auto simp: in_set_conv_nth batch_size_def)
    from RouteGenBatchState_scenario [OF assms(1) b] obtain vtm n cw where
      i: "init_scenario cost (max_n_nodes s) vtm n cw (b, graph_data ! b) = Inr sc"
      and bl: "b < length graph_data"
      unfolding M sc by blast
    from i have dt: "drive_times sc = g_drive_times (graph_data ! b)"
      and mst: "mean_stop_time sc = mean_stop_time_s cost"
      by (auto simp: init_scenario_def Let_def split: sum.splits)
    from assms(2) bl have "mat_ok (max_n_nodes s) (g_drive_times (graph_data ! b))"
      "nonneg_or_inf (mean_stop_time_s cost)" "isfinite (avg_transfer_wait_time_s cost)"
      unfolding input_ok_def M by auto
    then show ?thesis
      unfolding scenario_inv_def init_scenario_fields [OF i] dt mst
      by (auto simp: mat_ok_def initial_transit_times_eq nonneg_or_inf_def eye_def zeros_long_def
            zero_no_penalty init_scenario_fields(13) [OF i])
  qed
  then show ?thesis by (simp add: state_inv_def)
qed

lemma reachable_inv:
  assumes "lib_ok lib" and "reachable lib s"
  shows "state_inv s"
  using assms(2)
proof (induction rule: reachable.induct)
  case (constructed graph_data cost n_routes valid_terms weights fixed_routes s)
  then show ?case by (rule constructed_inv)
next
  case (acted s path_indices s')
  then show ?case using shortest_path_action_inv [OF assms(1)] by blast
next
  case (added s batch_new_routes f1 f2 s')
  then show ?case using add_new_routes_inv [OF assms(1)] by blast
next
  case (replaced s batch_new_routes f1 f2 s')
  then show ?case
    using add_new_routes_inv [OF assms(1) clear_routes_helper_inv]
    by (auto simp: replace_routes_def)
next
  case (cleared s)
  then show ?case by (simp add: clear_routes_def clear_routes_helper_inv)
next
  case (reset s)
  then show ?case by (simp add: reset_dones_def Let_def clear_routes_helper_inv)
qed

section \<open>The base terminal mask is the one supplied at construction\<close>

lemma step_scenario_base:
  "base_valid_terms_mat (step_scenario lib M symm sc m row) = base_valid_terms_mat sc"
  by (simp add: step_scenario_def Let_def set_current_route_def finish_route_def)

lemma add_scenario_base:
  "base_valid_terms_mat (add_scenario lib M symm sc new) = base_valid_terms_mat sc"
  by (simp add: add_scenario_def add_finished_routes_def)

lemma clear_scenario_base: "base_valid_terms_mat (clear_scenario sc) = base_valid_terms_mat sc"
  by (simp add: clear_scenario_def Let_def)

lemma clear_routes_helper_base:
  assumes "b < batch_size s"
  shows "base_valid_terms_mat (scenarios (clear_routes_helper s ix) ! b)
           = base_valid_terms_mat (scenarios s ! b)"
  using clear_routes_helper_scenarios(4) [OF assms, of ix]
  by (auto simp: clear_scenario_base)

lemma add_new_routes_base:
  assumes "add_new_routes lib s batch_new_routes f1 f2 = Inr s'" and "b < batch_size s"
  shows "base_valid_terms_mat (scenarios s' ! b) = base_valid_terms_mat (scenarios s ! b)"
  by (simp add: add_new_routes_Inr(2) [OF assms] add_scenario_base)

text \<open>
  No operation writes the base mask: in every state that operations produce from a
  state \<open>s0\<close>, the batch has the size and every scenario the base mask it has in \<open>s0\<close>.
\<close>

lemma reachable_from_base:
  assumes "reachable_from lib s0 s"
  shows "batch_size s = batch_size s0
       \<and> (\<forall>b<batch_size s0. base_valid_terms_mat (scenarios s ! b)
                               = base_valid_terms_mat (scenarios s0 ! b))"
  using assms
proof (induction rule: reachable_from.induct)
  case start
  show ?case by simp
next
  case (act s path_indices s')
  from shortest_path_action_Inr [OF act.hyps(2)] obtain masks new_parts ur where
    step: "\<And>b. b < batch_size s \<Longrightarrow> scenarios s' ! b =
               step_scenario lib (max_n_nodes s) (symmetric_routes s) (scenarios s ! b)
                 (masks ! b) (ur ! b)"
    and sz: "batch_size s' = batch_size s"
    by blast
  with act.IH show ?case by (simp add: step_scenario_base)
next
  case (add s batch_new_routes f1 f2 s')
  from add.IH add_new_routes_Inr(3) [OF add.hyps(2)] add_new_routes_base [OF add.hyps(2)]
  show ?case by simp
next
  case (replace s batch_new_routes f1 f2 s')
  let ?c = "clear_routes_helper s None"
  from replace.hyps(2) have a: "add_new_routes lib ?c batch_new_routes f1 f2 = Inr s'"
    by (simp add: replace_routes_def)
  have bs: "batch_size ?c = batch_size s" by (rule clear_routes_helper_scenarios(1))
  from replace.IH add_new_routes_Inr(3) [OF a] add_new_routes_base [OF a] bs
    clear_routes_helper_base [of _ s None]
  show ?case by simp
next
  case (clear s)
  from clear.IH clear_routes_helper_scenarios(1) [of s None] clear_routes_helper_base [of _ s None]
  show ?case by (simp add: clear_routes_def)
next
  case (reset_done s)
  from reset_done.IH
    clear_routes_helper_scenarios(1) [of s "Some (filter (\<lambda>bi. is_done (scenarios s ! bi)) (batch_indices s))"]
    clear_routes_helper_base [of _ s "Some (filter (\<lambda>bi. is_done (scenarios s ! bi)) (batch_indices s))"]
  show ?case by (simp add: reset_dones_def Let_def)
qed

text \<open>The constructor stores the supplied mask of every scenario, or the default.\<close>

lemma constructed_base:
  assumes "RouteGenBatchState graph_data cost n_routes valid_terms weights fixed_routes = Inr s0"
    and "b < batch_size s0"
  shows "base_valid_terms_mat (scenarios s0 ! b)
           = (case valid_terms of None \<Rightarrow> (\<lambda>i j. \<not> eye i j) | Some v \<Rightarrow> v ! b)"
    and "case valid_terms of None \<Rightarrow> True | Some v \<Rightarrow> b < length v"
proof -
  from RouteGenBatchState_scenario [OF assms] obtain vtm n cw where
    init: "init_scenario cost (foldr max (map num_nodes graph_data) 0) vtm n cw
             (b, graph_data ! b) = Inr (scenarios s0 ! b)"
    and bl: "b < length graph_data"
    and vtm: "vtm = (case valid_terms of None \<Rightarrow> replicate (length graph_data) (\<lambda>i j. \<not> eye i j)
                    | Some v \<Rightarrow> v)"
    by blast
  note f = init_scenario_fields(11,12) [OF init]
  from f(2) have i: "b < length vtm" "vtm ! b = valid_terms_mat (scenarios s0 ! b)"
    by (auto simp: item_at_def split: if_splits)
  from i bl vtm show "base_valid_terms_mat (scenarios s0 ! b)
           = (case valid_terms of None \<Rightarrow> (\<lambda>i j. \<not> eye i j) | Some v \<Rightarrow> v ! b)"
    by (cases valid_terms) (simp_all add: f(1) [symmetric])
  from i vtm show "case valid_terms of None \<Rightarrow> True | Some v \<Rightarrow> b < length v"
    by (cases valid_terms) simp_all
qed

section \<open>The library after the spec meets the contract\<close>

lemma fadd_nonneg_or_inf: "nonneg_or_inf a \<Longrightarrow> nonneg_or_inf b \<Longrightarrow> nonneg_or_inf (fadd a b)"
  using overflow_threshold_pos
  by (cases a; cases b) (auto simp: nonneg_or_inf_def round_fl_def)

lemma fsum_Nil [simp]: "fsum [] = Fin 0"
  by (simp add: fsum_def)

lemma fsum_Cons [simp]: "fsum (a # xs) = fadd a (fsum xs)"
  by (simp add: fsum_def)

lemma fsum_nonneg_or_inf: "(\<And>x. x \<in> set xs \<Longrightarrow> nonneg_or_inf x) \<Longrightarrow> nonneg_or_inf (fsum xs)"
proof (induction xs)
  case Nil
  show ?case by (simp add: nonneg_or_inf_def)
next
  case (Cons a xs)
  have "nonneg_or_inf (fsum xs)" using Cons by simp
  moreover have "nonneg_or_inf a" using Cons.prems by simp
  ultimately show ?case by (simp add: fadd_nonneg_or_inf)
qed

lemma foldr_fminimum_nonneg_or_inf:
  "(\<And>x. x \<in> set xs \<Longrightarrow> nonneg_or_inf x) \<Longrightarrow> nonneg_or_inf (foldr fminimum xs PInf)"
proof (induction xs)
  case Nil
  show ?case by (simp add: nonneg_or_inf_def)
next
  case (Cons a xs)
  have "nonneg_or_inf (foldr fminimum xs PInf)" using Cons by simp
  moreover have "nonneg_or_inf a" using Cons.prems by simp
  ultimately show ?case by (simp add: fminimum_nonneg_or_inf)
qed

lemma concat_map_Nil: "(\<forall>x\<in>set xs. f x = []) \<Longrightarrow> concat (map f xs) = []"
  by (induction xs) auto

lemma leg_time_nonneg_or_inf:
  "mat_ok M dt \<Longrightarrow> nonneg_or_inf mst \<Longrightarrow> nonneg_or_inf (leg_time M dt mst a b)"
  by (simp add: leg_time_def mat_ok_def nonneg_or_inf_def fadd_nonneg_or_inf [unfolded nonneg_or_inf_def])

lemma spec_route_leg_times_ok:
  assumes "mat_ok M dt" and "nonneg_or_inf mst" and "x \<in> set (spec_route_leg_times M route dt mst)"
  shows "nonneg_or_inf x"
  using assms leg_time_nonneg_or_inf [OF assms(1,2)]
  by (auto simp: spec_route_leg_times_def dest!: in_set_zipE)

lemma ride_times_ok:
  assumes "mat_ok M dt" and "nonneg_or_inf mst" and "r \<in> set (ride_times M dt mst route)"
  shows "nonneg_or_inf (snd (snd r))"
proof -
  define stops where "stops = filter (\<lambda>x. - 1 < x) route"
  define legs where "legs = spec_route_leg_times M stops dt mst"
  have ll: "length legs = length stops - 1"
    by (simp add: legs_def spec_route_leg_times_def)
  from assms(3) have "\<exists>p q. Suc p \<le> q \<and> q < length stops
                     \<and> snd (snd r) = fsum (map (\<lambda>l. legs ! l) [p..<q])"
    unfolding ride_times_def Let_def stops_def [symmetric] legs_def [symmetric]
    by fastforce
  then obtain p q where pq: "p < q" "q < length stops"
    and r: "snd (snd r) = fsum (map (\<lambda>l. legs ! l) [p..<q])"
    by (auto simp: Suc_le_eq)
  have "nonneg_or_inf x" if "x \<in> set (map (\<lambda>l. legs ! l) [p..<q])" for x
  proof -
    from that obtain l where "l < q" "x = legs ! l" by auto
    with pq ll have "x \<in> set legs" by simp
    then show ?thesis
      unfolding legs_def by (rule spec_route_leg_times_ok [OF assms(1,2)])
  qed
  then show ?thesis unfolding r by (rule fsum_nonneg_or_inf)
qed

lemma spec_route_edge_matrix_ok:
  assumes "mat_ok M dt" and "nonneg_or_inf mst"
  shows "nonneg_or_inf (spec_route_edge_matrix M rts dt mst symm i j)"
  unfolding spec_route_edge_matrix_def Let_def
proof (rule foldr_fminimum_nonneg_or_inf)
  fix x
  assume "x \<in> set (map (\<lambda>r. snd (snd r))
            (filter (\<lambda>r. fst r = int i \<and> fst (snd r) = int j)
              (concat (map (ride_times M dt mst) rts) @
               (if symm then concat (map (\<lambda>r. ride_times M dt mst (rev r)) rts) else []))))"
  then obtain r route where "x = snd (snd r)" "r \<in> set (ride_times M dt mst route)"
    by (auto split: if_splits)
  then show "nonneg_or_inf x" using ride_times_ok [OF assms] by blast
qed

lemma ride_times_empty: "n_stops route = 0 \<Longrightarrow> ride_times M dt mst route = []"
  by (simp add: ride_times_def n_stops_def)

lemma n_stops_rev: "n_stops (rev route) = n_stops route"
  by (simp add: n_stops_def rev_filter [symmetric])

lemma spec_route_edge_matrix_empty:
  assumes "\<forall>r\<in>set rts. n_stops r = 0"
  shows "spec_route_edge_matrix M rts dt mst symm i j = PInf"
proof -
  have a: "concat (map (ride_times M dt mst) rts) = []"
    using assms by (intro concat_map_Nil) (simp add: ride_times_empty)
  have b: "concat (map (\<lambda>r. ride_times M dt mst (rev r)) rts) = []"
    using assms by (intro concat_map_Nil) (simp add: ride_times_empty n_stops_rev)
  show ?thesis unfolding spec_route_edge_matrix_def Let_def a b by simp
qed

lemma fle_refl: "\<not> is_nan a \<Longrightarrow> fle a a"
  by (cases a) simp_all

lemma fle_trans: "fle a b \<Longrightarrow> fle b c \<Longrightarrow> fle a c"
  by (cases a; cases b; cases c) simp_all

lemma flt_fle: "flt a b \<Longrightarrow> fle a b"
  by (cases a; cases b) simp_all

lemma fw_step_ok:
  assumes "mat_ok M (snd nd)" and "k < M"
  shows "mat_ok M (snd (fw_step k nd))"
    and "\<And>i j. i < M \<Longrightarrow> j < M \<Longrightarrow> fle (snd (fw_step k nd) i j) (snd nd i j)"
proof -
  show "mat_ok M (snd (fw_step k nd))"
    using assms by (simp add: fw_step_def Let_def mat_ok_def fadd_nonneg_or_inf)
  show "fle (snd (fw_step k nd) i j) (snd nd i j)" if "i < M" "j < M" for i j
    using assms that
    by (simp add: fw_step_def Let_def mat_ok_def flt_fle fle_refl nonneg_or_inf_not_nan)
qed

lemma fold_fw_step_ok:
  assumes "mat_ok M (snd nd)" and "\<forall>k\<in>set ks. k < M"
  shows "mat_ok M (snd (fold fw_step ks nd)) \<and>
         (\<forall>i<M. \<forall>j<M. fle (snd (fold fw_step ks nd) i j) (snd nd i j))"
  using assms
proof (induction ks arbitrary: nd)
  case Nil
  then show ?case by (simp add: mat_ok_def fle_refl nonneg_or_inf_not_nan)
next
  case (Cons k ks)
  from Cons.prems have k: "k < M" and ks: "\<forall>k\<in>set ks. k < M" by simp_all
  note st = fw_step_ok [OF Cons.prems(1) k]
  from Cons.IH [OF st(1) ks]
  have ok: "mat_ok M (snd (fold fw_step ks (fw_step k nd)))"
    and le: "\<And>i j. i < M \<Longrightarrow> j < M \<Longrightarrow>
               fle (snd (fold fw_step ks (fw_step k nd)) i j) (snd (fw_step k nd) i j)"
    by blast+
  have "fle (snd (fold fw_step ks (fw_step k nd)) i j) (snd nd i j)" if "i < M" "j < M" for i j
    using le [OF that] st(2) [OF that] by (rule fle_trans)
  with ok show ?case by simp
qed

lemma spec_lib_ok: "lib_ok spec_lib"
proof -
  have "edge_matrix_ok spec_lib"
    by (simp add: edge_matrix_ok_def spec_lib_def mat_ok_def spec_route_edge_matrix_ok [unfolded mat_ok_def])
  moreover have "edge_matrix_empty_ok spec_lib"
    by (simp add: edge_matrix_empty_ok_def spec_lib_def spec_route_edge_matrix_empty)
  moreover have "floyd_warshall_ok spec_lib"
    unfolding floyd_warshall_ok_def
  proof (intro allI impI)
    fix M A assume "mat_ok M A"
    then have "mat_ok M (snd ((\<lambda>i j. if flt (A i j) PInf then int j else - 1), A))" by simp
    from fold_fw_step_ok [OF this, of "[0..<M]"]
    show "mat_ok M (snd (floyd_warshall spec_lib M A)) \<and>
          (\<forall>i<M. \<forall>j<M. fle (snd (floyd_warshall spec_lib M A) i j) (A i j))"
      by (simp add: spec_lib_def spec_floyd_warshall_def)
  qed
  ultimately show ?thesis by (simp add: lib_ok_def)
qed

subsection \<open>The example states\<close>

lemma isr_projr: "\<not> isl x \<Longrightarrow> x = Inr (projr x)"
  by (cases x) simp_all

lemma example_fresh_constructed:
  "RouteGenBatchState [example_graph] example_cost [1] None None None = Inr example_fresh"
  unfolding example_fresh_def
  by (simp add: RouteGenBatchState_def example_graph_def example_cost_def Let_def expand_def
       init_scenario_def item_at_def per_scenario_def weights_at_def)

lemma example_drive_time_bound:
  "i < 3 \<Longrightarrow> j < 3 \<Longrightarrow> 5 * \<bar>real i - real j\<bar> < overflow_threshold"
proof -
  assume "i < 3" "j < 3"
  then have "\<bar>real i - real j\<bar> \<le> 3" by linarith
  then show ?thesis by (simp add: overflow_threshold_eq)
qed

lemma example_input_ok: "input_ok [example_graph] example_cost"
  by (auto simp: input_ok_def example_graph_def example_cost_def mat_ok_def nonneg_or_inf_def
        example_drive_time_bound)

lemma example_fresh_reachable: "reachable spec_lib example_fresh"
  by (rule reachable.constructed [OF example_fresh_constructed example_input_ok])

lemma example_started_action:
  "shortest_path_action spec_lib example_fresh [(0, 2)] = Inr example_started"
proof -
  have "\<not> isl (shortest_path_action spec_lib example_fresh [(0, 2)])" by code_simp
  then show ?thesis unfolding example_started_def by (rule isr_projr)
qed


lemma example_sizes:
  "batch_size example_fresh = 1" "max_n_nodes example_fresh = 3"
  "batch_size example_started = 1" "max_n_nodes example_started = 3"
proof -
  show f: "batch_size example_fresh = 1" "max_n_nodes example_fresh = 3" by code_simp+
  from shortest_path_action_Inr [OF example_started_action] f
  show "batch_size example_started = 1" "max_n_nodes example_started = 3" by auto
qed






section \<open>Reset\<close>

text \<open>
  C6.  After \<open>clear_routes\<close> on any state, every scenario has: \<open>route_mat\<close> 0 on the
  diagonal and infinite elsewhere, the value a freshly constructed state has; a total
  route time of 0 (the stored total and the property that adds the time of the route
  in progress); \<open>valid_terms_mat\<close> equal to the stored base mask, which in every state
  that operations produce from a constructed state \<open>s0\<close> is the mask supplied to the
  constructor for this scenario (the default mask, true off the diagonal, when none
  was supplied); and \<open>directly_connected\<close>, \<open>transit_times\<close>, \<open>has_path\<close>, \<open>route_nexts\<close> and \<open>n_transfers\<close>
  equal to those of a freshly constructed state \<open>s0\<close>, the current route empty (every
  entry -1, the row as wide as before), and no finished route.
\<close>

theorem C6_clear_routes_restores_initial_values:
  assumes "RouteGenBatchState graph_data cost n_routes valid_terms weights fixed_routes = Inr s0"
    and "b0 < batch_size s0"
    and "b < batch_size s"
  shows "(let sc = scenarios (clear_routes s) ! b;
              old = scenarios s ! b;
              fresh = scenarios s0 ! b0
          in route_mat sc = route_mat fresh
           \<and> route_mat sc = (\<lambda>i j. if i = j then Fin 0 else PInf)
           \<and> total_route_time sc = Fin 0
           \<and> total_route_time_property sc = Fin 0
           \<and> valid_terms_mat sc = base_valid_terms_mat old
           \<and> directly_connected sc = directly_connected fresh
           \<and> transit_times sc = transit_times fresh
           \<and> has_path sc = has_path fresh
           \<and> route_nexts sc = route_nexts fresh
           \<and> n_transfers sc = n_transfers fresh
           \<and> current_routes sc = replicate (length (current_routes old)) (- 1)
           \<and> current_routes fresh = replicate (max_n_nodes s0) (- 1)
           \<and> finished_routes sc = finished_routes fresh
           \<and> (reachable_from lib s0 s \<longrightarrow>
                valid_terms_mat sc
                  = (case valid_terms of None \<Rightarrow> (\<lambda>i j. \<not> eye i j) | Some v \<Rightarrow> v ! b)
              \<and> valid_terms_mat sc = valid_terms_mat (scenarios s0 ! b)))"
proof -
  from RouteGenBatchState_scenario [OF assms(1,2)] obtain vtm n cw where
    init: "init_scenario cost (foldr max (map num_nodes graph_data) 0) vtm n cw
             (b0, graph_data ! b0) = Inr (scenarios s0 ! b0)"
    by blast
  note f = init_scenario_fields [OF init]
  have m: "max_n_nodes s0 = foldr max (map num_nodes graph_data) 0"
    by (rule RouteGenBatchState_max_n_nodes [OF assms(1)])
  have c: "scenarios (clear_routes s) ! b = clear_scenario (scenarios s ! b)"
    by (rule clear_routes_nth [OF assms(3)])
  have i: "initial_transit_times = (\<lambda>i j. if i = j then Fin 0 else PInf)"
    by (intro ext) (simp add: initial_transit_times_eq)
  have r: "map (\<lambda>_. - 1) xs = replicate (length xs) (- 1 :: int)" for xs
    by (simp add: map_replicate_const)
  have base: "base_valid_terms_mat (scenarios s ! b)
                = (case valid_terms of None \<Rightarrow> (\<lambda>i j. \<not> eye i j) | Some v \<Rightarrow> v ! b)
              \<and> base_valid_terms_mat (scenarios s ! b) = valid_terms_mat (scenarios s0 ! b)"
    if "reachable_from lib s0 s"
  proof -
    from reachable_from_base [OF that] assms(3)
    have b0: "b < batch_size s0"
      and eq: "base_valid_terms_mat (scenarios s ! b) = base_valid_terms_mat (scenarios s0 ! b)"
      by simp_all
    from RouteGenBatchState_scenario [OF assms(1) b0] obtain vtm' n' cw' where
      "init_scenario cost (foldr max (map num_nodes graph_data) 0) vtm' n' cw'
             (b, graph_data ! b) = Inr (scenarios s0 ! b)"
      by blast
    from init_scenario_fields(11) [OF this] eq constructed_base(1) [OF assms(1) b0]
    show ?thesis by simp
  qed
  have main: "route_mat (clear_scenario (scenarios s ! b)) = route_mat (scenarios s0 ! b0)
           \<and> route_mat (clear_scenario (scenarios s ! b)) = (\<lambda>i j. if i = j then Fin 0 else PInf)
           \<and> total_route_time (clear_scenario (scenarios s ! b)) = Fin 0
           \<and> total_route_time_property (clear_scenario (scenarios s ! b)) = Fin 0
           \<and> valid_terms_mat (clear_scenario (scenarios s ! b)) = base_valid_terms_mat (scenarios s ! b)
           \<and> directly_connected (clear_scenario (scenarios s ! b)) = directly_connected (scenarios s0 ! b0)
           \<and> transit_times (clear_scenario (scenarios s ! b)) = transit_times (scenarios s0 ! b0)
           \<and> has_path (clear_scenario (scenarios s ! b)) = has_path (scenarios s0 ! b0)
           \<and> route_nexts (clear_scenario (scenarios s ! b)) = route_nexts (scenarios s0 ! b0)
           \<and> n_transfers (clear_scenario (scenarios s ! b)) = n_transfers (scenarios s0 ! b0)
           \<and> current_routes (clear_scenario (scenarios s ! b))
               = replicate (length (current_routes (scenarios s ! b))) (- 1)
           \<and> current_routes (scenarios s0 ! b0) = replicate (max_n_nodes s0) (- 1)
           \<and> finished_routes (clear_scenario (scenarios s ! b)) = finished_routes (scenarios s0 ! b0)"
    by (simp add: clear_scenario_def f m i [symmetric] r total_route_time_property_def)
  have v: "valid_terms_mat (clear_scenario (scenarios s ! b)) = base_valid_terms_mat (scenarios s ! b)"
    by (simp add: clear_scenario_def Let_def)
  show ?thesis
    unfolding Let_def c v using main base unfolding v by blast
qed

section \<open>Monotone route matrix and reachability consistency\<close>

lemma refresh_scenario_route_mat_le:
  assumes "lib_ok lib" and "scenario_inv M sc" and "i < M" and "j < M"
  shows "fle (route_mat (refresh_scenario lib M symm f1 f2 sc upd) i j) (route_mat sc i j)"
proof -
  from assms(2) have dt: "mat_ok M (drive_times sc)" and mst: "nonneg_or_inf (mean_stop_time sc)"
    and rm: "mat_ok M (route_mat sc)"
    by (simp_all add: scenario_inv_def)
  from assms(1) dt mst
  have "mat_ok M (get_route_edge_matrix lib M upd (drive_times sc) (mean_stop_time sc) symm)"
    unfolding lib_ok_def edge_matrix_ok_def by blast
  with rm assms(3,4) show ?thesis
    by (simp add: refresh_scenario_route_mat mat_ok_def fminimum_le_left nonneg_or_inf_not_nan)
qed

lemma step_scenario_route_mat_le:
  assumes "lib_ok lib" and "scenario_inv M sc" and "i < M" and "j < M"
  shows "fle (route_mat (step_scenario lib M symm sc m row) i j) (route_mat sc i j)"
proof -
  define sc1 where "sc1 = set_current_route lib M symm (finish_route sc (routes_are_done m) row)"
  have rm: "route_mat sc1 = route_mat sc" "drive_times sc1 = drive_times sc"
    "mean_stop_time sc1 = mean_stop_time sc"
    by (simp_all add: sc1_def set_current_route_frame finish_route_frame)
  from assms(2) have dt: "mat_ok M (drive_times sc1)" and mst: "nonneg_or_inf (mean_stop_time sc1)"
    and ok: "mat_ok M (route_mat sc1)"
    by (simp_all add: scenario_inv_def rm)
  from assms(1) dt mst
  have "mat_ok M (get_route_edge_matrix lib M upd (drive_times sc1) (mean_stop_time sc1) symm)" for upd
    unfolding lib_ok_def edge_matrix_ok_def by blast
  with ok assms(3,4)
  have "fle (route_mat (refresh_scenario lib M symm f1 f2 sc1 upd) i j) (route_mat sc1 i j)" for f1 f2 upd
    by (simp add: refresh_scenario_route_mat mat_ok_def fminimum_le_left nonneg_or_inf_not_nan)
  then show ?thesis by (simp add: step_scenario_def Let_def sc1_def [symmetric] rm)
qed

text \<open>
  C3.  With a library that meets its contract, in every reachable state: whenever
  \<open>shortest_path_action\<close>, \<open>add_new_routes\<close> or the refresh \<open>update_on_routes\<close> returns
  a state, every entry of every scenario's \<open>route_mat\<close> (node pairs below the padded
  node count) is less than or equal to the entry before.
\<close>

theorem C3_route_mat_never_increases:
  assumes "lib_ok lib" and "reachable lib s"
    and "shortest_path_action lib s path_indices = Inr s'
         \<or> add_new_routes lib s batch_new_routes f1 f2 = Inr s'
         \<or> update_on_routes lib s update_routes g1 g2 = Inr s'"
    and "b < batch_size s" and "i < max_n_nodes s" and "j < max_n_nodes s"
  shows "fle (route_mat (scenarios s' ! b) i j) (route_mat (scenarios s ! b) i j)"
proof -
  from reachable_inv [OF assms(1,2)] assms(4)
  have inv: "scenario_inv (max_n_nodes s) (scenarios s ! b)"
    by (simp add: state_inv_def batch_size_def)
  from assms(3) consider
    (act) "shortest_path_action lib s path_indices = Inr s'"
    | (add) "add_new_routes lib s batch_new_routes f1 f2 = Inr s'"
    | (upd) "update_on_routes lib s update_routes g1 g2 = Inr s'"
    by blast
  then show ?thesis
  proof cases
    case act
    from shortest_path_action_Inr [OF act] assms(4) obtain m row where
      "scenarios s' ! b = step_scenario lib (max_n_nodes s) (symmetric_routes s) (scenarios s ! b) m row"
      by blast
    with step_scenario_route_mat_le [OF assms(1) inv assms(5,6)] show ?thesis by simp
  next
    case add
    have inv': "scenario_inv (max_n_nodes s)
                 (add_scenario lib (max_n_nodes s) (symmetric_routes s) (scenarios s ! b)
                    (batch_new_routes ! b))"
      using inv unfolding scenario_inv_def add_scenario_frame by blast
    from refresh_scenario_route_mat_le [OF assms(1) inv' assms(5,6)]
      add_new_routes_Inr(2) [OF add assms(4)]
    show ?thesis by (simp add: add_scenario_frame)
  next
    case upd
    from refresh_scenario_route_mat_le [OF assms(1) inv assms(5,6)]
      update_on_routes_nth [OF upd assms(4)]
    show ?thesis by simp
  qed
qed

theorem C3_route_mat_never_increases_witness:
  "shortest_path_action spec_lib example_fresh [(0, 2)] = Inr example_started
   \<and> route_mat (scenarios example_fresh ! 0) 0 2 = PInf
   \<and> route_mat (scenarios example_started ! 0) 0 2 = Fin 10
   \<and> fle (route_mat (scenarios example_started ! 0) 0 2) (route_mat (scenarios example_fresh ! 0) 0 2)"
proof -
  have "route_mat (scenarios example_fresh ! 0) 0 2 = PInf" by code_simp
  moreover have "route_mat (scenarios example_started ! 0) 0 2 = Fin 10" by code_simp
  moreover have "fle (route_mat (scenarios example_started ! 0) 0 2)
                   (route_mat (scenarios example_fresh ! 0) 0 2)"
    using C3_route_mat_never_increases [OF spec_lib_ok example_fresh_reachable, of "[(0, 2)]"
        example_started undefined undefined undefined undefined undefined undefined 0 0 2]
      example_started_action
    by (simp add: example_sizes)
  ultimately show ?thesis using example_started_action by simp
qed




theorem C6_clear_routes_restores_initial_values_witness:
  "current_routes (scenarios example_started ! 0) = [0, 1, 2]
   \<and> route_mat (scenarios example_started ! 0) 0 2 = Fin 10
   \<and> current_routes (scenarios (clear_routes example_started) ! 0) = [- 1, - 1, - 1]
   \<and> route_mat (scenarios (clear_routes example_started) ! 0) 0 2 = PInf
   \<and> route_mat (scenarios (clear_routes example_started) ! 0) = route_mat (scenarios example_fresh ! 0)
   \<and> transit_times (scenarios (clear_routes example_started) ! 0)
       = transit_times (scenarios example_fresh ! 0)
   \<and> directly_connected (scenarios (clear_routes example_started) ! 0)
       = directly_connected (scenarios example_fresh ! 0)
   \<and> total_route_time_property (scenarios (clear_routes example_started) ! 0) = Fin 0
   \<and> valid_terms_mat (scenarios (clear_routes example_started) ! 0)
       = base_valid_terms_mat (scenarios example_started ! 0)
   \<and> reachable_from spec_lib example_fresh example_started
   \<and> valid_terms_mat (scenarios (clear_routes example_started) ! 0) = (\<lambda>i j. \<not> eye i j)"
proof -
  have rf: "reachable_from spec_lib example_fresh example_started"
    by (rule reachable_from.act [OF reachable_from.start example_started_action])
  have cur: "current_routes (scenarios example_started ! 0) = [0, 1, 2]" by code_simp
  have rm: "route_mat (scenarios example_started ! 0) 0 2 = Fin 10" by code_simp
  have sz: "0 < batch_size example_fresh" "0 < batch_size example_started"
    by (simp_all add: example_sizes)
  note c = C6_clear_routes_restores_initial_values
             [OF example_fresh_constructed sz, unfolded Let_def, where lib = spec_lib]
  from c rf have "valid_terms_mat (scenarios (clear_routes example_started) ! 0)
                    = (case None :: bool mat list option of None \<Rightarrow> (\<lambda>i j. \<not> eye i j)
                       | Some v \<Rightarrow> v ! 0)"
    by blast
  then have vt: "valid_terms_mat (scenarios (clear_routes example_started) ! 0) = (\<lambda>i j. \<not> eye i j)"
    by simp
  from c have e: "route_mat (scenarios (clear_routes example_started) ! 0)
                    = (\<lambda>i j. if i = j then Fin 0 else PInf)"
    and r: "current_routes (scenarios (clear_routes example_started) ! 0)
              = replicate (length (current_routes (scenarios example_started ! 0))) (- 1)"
    by blast+
  have "route_mat (scenarios (clear_routes example_started) ! 0) 0 2 = PInf"
    unfolding e by simp
  moreover have "current_routes (scenarios (clear_routes example_started) ! 0) = [- 1, - 1, - 1]"
    unfolding r cur by (simp add: numeral_3_eq_3)
  ultimately show ?thesis using c cur rm rf vt by blast
qed

section \<open>Finishing a route\<close>

lemma row_get_Inr:
  assumes "row_get row i = Inr x"
  shows "(0 \<le> i \<and> i < int (length row) \<and> x = row ! nat i)
       \<or> (- int (length row) \<le> i \<and> i < 0 \<and> x = row ! nat (int (length row) + i))"
  using assms by (auto simp: row_get_def tensor_index_def split: if_splits)

lemma get_action_masks_Inr:
  assumes "get_action_masks sc uv = Inr m"
  shows "0 < length (current_routes sc)"
    and "routes_are_done m = (fst uv = - 1)"
    and "starting m = (current_routes sc ! 0 = - 1 \<and> fst uv \<noteq> - 1)"
    and "extending m = (\<not> starting m \<and> \<not> routes_are_done m)"
    and "ends_at_cur_start m = (snd uv = current_routes sc ! 0)"
    and "starts_at_cur_end m =
           (fst uv = (if current_route_n_stops sc = 0
                      then current_routes sc ! (length (current_routes sc) - 1)
                      else current_routes sc ! (current_route_n_stops sc - 1)))"
proof -
  obtain first_node where f: "row_get (current_routes sc) 0 = Inr first_node"
    using assms by (cases "row_get (current_routes sc) 0") (simp_all add: get_action_masks_def)
  obtain last_nodes where
    l: "row_get (current_routes sc) (int (current_route_n_stops sc) - 1) = Inr last_nodes"
    using assms f
    by (cases "row_get (current_routes sc) (int (current_route_n_stops sc) - 1)")
       (simp_all add: get_action_masks_def)
  from assms f l have m: "m = \<lparr>routes_are_done = (fst uv = - 1),
                 starting = (first_node = - 1 \<and> \<not> fst uv = - 1),
                 extending = (\<not> (first_node = - 1 \<and> \<not> fst uv = - 1) \<and> \<not> fst uv = - 1),
                 ends_at_cur_start = (snd uv = first_node),
                 starts_at_cur_end = (fst uv = last_nodes)\<rparr>"
    by (simp add: get_action_masks_def Let_def)
  from row_get_Inr [OF f] have len: "0 < length (current_routes sc)"
    and fn: "first_node = current_routes sc ! 0"
    by auto
  from len show "0 < length (current_routes sc)" .
  have ln: "last_nodes = (if current_route_n_stops sc = 0
                      then current_routes sc ! (length (current_routes sc) - 1)
                      else current_routes sc ! (current_route_n_stops sc - 1))"
  proof (cases "current_route_n_stops sc = 0")
    case True
    have "nat (int (length (current_routes sc)) + (0 - 1)) = length (current_routes sc) - 1"
      by simp
    with row_get_Inr [OF l] True show ?thesis by simp
  next
    case False
    then have "nat (int (current_route_n_stops sc) - 1) = current_route_n_stops sc - 1"
      "0 \<le> int (current_route_n_stops sc) - 1"
      by simp_all
    with row_get_Inr [OF l] False show ?thesis by auto
  qed
  show "routes_are_done m = (fst uv = - 1)"
    "starting m = (current_routes sc ! 0 = - 1 \<and> fst uv \<noteq> - 1)"
    "extending m = (\<not> starting m \<and> \<not> routes_are_done m)"
    "ends_at_cur_start m = (snd uv = current_routes sc ! 0)"
    "starts_at_cur_end m =
           (fst uv = (if current_route_n_stops sc = 0
                      then current_routes sc ! (length (current_routes sc) - 1)
                      else current_routes sc ! (current_route_n_stops sc - 1)))"
    unfolding m fn ln by simp_all
qed

lemma first_parts_done:
  assumes "routes_are_done m" and "\<not> starting m" and "\<not> extending m"
    and "length np = length cur"
  shows "first_parts m np cur = cur"
proof -
  have "map2 (\<lambda>a c. c) np cur = cur"
    using assms(4) by (induction np cur rule: list_induct2) simp_all
  with assms(1-3) show ?thesis
    by (simp add: first_parts_def chose_prev_def chose_next_def b2i_def)
qed

lemma n_stops_all_minus_one: "(\<forall>x\<in>set xs. x = - 1) \<Longrightarrow> n_stops xs = 0"
  by (simp add: n_stops_def filter_empty_conv)

lemma all_tl: "\<forall>x\<in>set xs. P x \<Longrightarrow> \<forall>x\<in>set (tl xs). P x"
  by (cases xs) auto

lemma second_parts_done:
  assumes "\<not> extending m"
  shows "n_stops (second_parts m np cur) = 0"
proof -
  have "\<forall>x\<in>set (map2 (\<lambda>a c. a * b2i (chose_next m) + c * b2i (chose_prev m)
                     + (- 1) * b2i (\<not> (chose_next m \<or> chose_prev m))) np cur). x = - 1"
    using assms by (auto simp: chose_prev_def chose_next_def b2i_def)
  then have "\<forall>x\<in>set (second_parts m np cur). x = - 1"
    unfolding second_parts_def by (rule all_tl)
  then show ?thesis by (rule n_stops_all_minus_one)
qed

lemma filter_stops_clamp_pad:
  "filter (\<lambda>x. - 1 < x) (map (max (- 1)) (cur @ replicate k (- 1))) = filter (\<lambda>x. (- 1 :: int) < x) cur"
proof -
  have "filter (\<lambda>x. - 1 < x) (map (max (- 1)) xs) = filter (\<lambda>x. (- 1 :: int) < x) xs" for xs
    by (induction xs) (auto simp: max_def)
  then show ?thesis by simp
qed

text \<open>
  The row of \<open>updated_routes\<close> of a scenario whose action is the sentinel holds the
  stops of its current route.
\<close>

lemma sentinel_row:
  assumes a: "shortest_path_action lib s path_indices = Inr s'"
    and b: "b < batch_size s" and d: "fst (path_indices ! b) = - 1"
  shows "\<exists>m row. scenarios s' ! b =
            step_scenario lib (max_n_nodes s) (symmetric_routes s) (scenarios s ! b) m row
          \<and> routes_are_done m \<and> length row = max_n_nodes s
          \<and> filter (\<lambda>x. - 1 < x) row = filter (\<lambda>x. - 1 < x) (current_routes (scenarios s ! b))"
proof -
  from shortest_path_action_Inr [OF a] obtain masks new_parts ur where
    lp: "length path_indices = batch_size s"
    and masks: "collect (map2 get_action_masks (scenarios s) path_indices) = Inr masks"
    and lm: "length masks = batch_size s" and lnp: "length new_parts = batch_size s"
    and ur: "build_updated_routes (max_n_nodes s) (scenarios s) masks new_parts = Inr ur"
    and step: "\<And>b. b < batch_size s \<Longrightarrow> scenarios s' ! b =
               step_scenario lib (max_n_nodes s) (symmetric_routes s) (scenarios s ! b)
                 (masks ! b) (ur ! b)"
    by blast
  let ?sc = "scenarios s ! b"
  let ?m = "masks ! b"
  from collect_Inr_nth [OF masks, of b] b lp
  have gm: "get_action_masks ?sc (path_indices ! b) = Inr ?m"
    by (simp add: batch_size_def)
  note g = get_action_masks_Inr [OF gm]
  from g d have dn: "routes_are_done ?m" "\<not> starting ?m" "\<not> extending ?m" by simp_all
  have ls: "length masks = length (scenarios s)" "length new_parts = length (scenarios s)"
    "b < length (scenarios s)"
    using lm lnp b by (simp_all add: batch_size_def)
  note bu = build_updated_routes_Inr [OF ur ls(1,2)]
  have fp: "first_parts ?m (new_parts ! b) (current_routes ?sc) = current_routes ?sc"
    by (rule first_parts_done [OF dn bu(4) [OF ls(3)]])
  from bu(5) [OF ls(3) second_parts_done [OF dn(3)]] fp
  have "ur ! b = map (max (- 1))
          (current_routes ?sc @ replicate (max_n_nodes s - length (current_routes ?sc)) (- 1))"
    by simp
  then have "filter (\<lambda>x. - 1 < x) (ur ! b) = filter (\<lambda>x. - 1 < x) (current_routes ?sc)"
    by (simp only: filter_stops_clamp_pad)
  with step [OF b] dn(1) bu(2) [OF ls(3)] show ?thesis by blast
qed

lemma step_scenario_frame:
  "finished_routes (step_scenario lib M symm sc m row)
     = finished_routes (fst (finish_route sc (routes_are_done m) row))"
  "total_route_time (step_scenario lib M symm sc m row)
     = total_route_time (fst (finish_route sc (routes_are_done m) row))"
  "current_routes (step_scenario lib M symm sc m row)
     = snd (finish_route sc (routes_are_done m) row)"
  by (simp_all add: step_scenario_def Let_def set_current_route_frame)

text \<open>
  C1, as the code has it.  When the sentinel is applied to a scenario whose planning
  is not complete and the action returns: if the current route has at least one stop,
  its stops are appended to the finished routes as one route and the time of the
  current route is added to the total route time; if it has no stop, neither
  changes; in both cases the new current route is empty.
\<close>

theorem C1_sentinel_finishes_nonempty_route:
  assumes "shortest_path_action lib s path_indices = Inr s'"
    and "b < batch_size s"
    and "fst (path_indices ! b) = - 1"
    and "\<not> is_done (scenarios s ! b)"
  shows "(let old = scenarios s ! b; new = scenarios s' ! b;
              route = filter (\<lambda>x. - 1 < x) (current_routes old)
          in (if 0 < length route
              then finished_routes new = finished_routes old @ [route]
                 \<and> total_route_time new = fadd (total_route_time old) (current_route_time old)
              else finished_routes new = finished_routes old
                 \<and> total_route_time new = total_route_time old)
           \<and> current_routes new = replicate (max_n_nodes s) (- 1))"
proof -
  from sentinel_row [OF assms(1-3)] obtain m row where
    st: "scenarios s' ! b =
            step_scenario lib (max_n_nodes s) (symmetric_routes s) (scenarios s ! b) m row"
    and d: "routes_are_done m" and l: "length row = max_n_nodes s"
    and f: "filter (\<lambda>x. - 1 < x) row = filter (\<lambda>x. - 1 < x) (current_routes (scenarios s ! b))"
    by blast
  have r: "map (\<lambda>_. - 1) row = replicate (max_n_nodes s) (- 1 :: int)"
    using l by (simp add: map_replicate_const)
  show ?thesis
    unfolding Let_def st step_scenario_frame
    using assms(4) d by (simp add: finish_route_def Let_def f r)
qed

lemma example_explicit_fields:
  "max_n_nodes (example_state served cur fin n) = 3"
  "batch_size (example_state served cur fin n) = 1"
  "symmetric_routes (example_state served cur fin n) = True"
  "scenarios (example_state served cur fin n) ! 0 = example_scenario served cur fin n"
  "finished_routes (example_scenario served cur fin n) = fin"
  "current_routes (example_scenario served cur fin n) = cur"
  "n_routes_to_plan (example_scenario served cur fin n) = n"
  "is_done (example_scenario served cur fin n) = (n - int (length fin) = 0)"
  by (simp_all add: example_state_def example_scenario_def max_n_nodes_def batch_size_def
                    is_done_def n_routes_left_to_plan_def n_finished_routes_def)

theorem C1_sentinel_finishes_nonempty_route_witness:
  "finished_routes (scenarios example_in_progress ! 0) = []
   \<and> current_routes (scenarios example_in_progress ! 0) = [0, 1, 2]
   \<and> total_route_time (scenarios example_in_progress ! 0) = Fin 0
   \<and> current_route_time (scenarios example_in_progress ! 0) = Fin 20
   \<and> \<not> isl (shortest_path_action spec_lib example_in_progress [(- 1, 0)])
   \<and> finished_routes (scenarios (projr (shortest_path_action spec_lib example_in_progress [(- 1, 0)])) ! 0)
       = [[0, 1, 2]]
   \<and> total_route_time (scenarios (projr (shortest_path_action spec_lib example_in_progress [(- 1, 0)])) ! 0)
       = Fin 20
   \<and> current_routes (scenarios (projr (shortest_path_action spec_lib example_in_progress [(- 1, 0)])) ! 0)
       = [- 1, - 1, - 1]"
proof -
  have ok: "\<not> isl (shortest_path_action spec_lib example_in_progress [(- 1, 0)])" by code_simp
  have old: "finished_routes (scenarios example_in_progress ! 0) = []"
    "current_routes (scenarios example_in_progress ! 0) = [0, 1, 2]"
    "total_route_time (scenarios example_in_progress ! 0) = Fin 0"
    "current_route_time (scenarios example_in_progress ! 0) = Fin 20"
    "\<not> is_done (scenarios example_in_progress ! 0)"
    by (simp_all add: example_in_progress_def example_explicit_fields)
       (simp_all add: example_scenario_def n_stops_def)
  have sz: "0 < batch_size example_in_progress" "max_n_nodes example_in_progress = 3"
    by (simp_all add: example_in_progress_def example_explicit_fields)
  from C1_sentinel_finishes_nonempty_route [OF isr_projr [OF ok] sz(1) _ old(5)]
  have "finished_routes (scenarios (projr (shortest_path_action spec_lib example_in_progress [(- 1, 0)])) ! 0)
          = [[0, 1, 2]]
      \<and> total_route_time (scenarios (projr (shortest_path_action spec_lib example_in_progress [(- 1, 0)])) ! 0)
          = Fin 20
      \<and> current_routes (scenarios (projr (shortest_path_action spec_lib example_in_progress [(- 1, 0)])) ! 0)
          = [- 1, - 1, - 1]"
    by (simp add: Let_def old sz numeral_3_eq_3 overflow_threshold_eq)
  with ok old show ?thesis by blast
qed

text \<open>
  The claim has a current route of fewer than two stops discarded.  From the fresh
  example state the action (0, 0) starts a route of the single stop 0; in a state
  with that current route the sentinel appends the one-stop route [0] to the
  finished routes.
\<close>

theorem C1_one_stop_route_is_appended:
  "map current_routes (scenarios (projr (shortest_path_action spec_lib example_fresh [(0, 0)])))
     = [[0, - 1, - 1]]
   \<and> map current_routes (scenarios example_one_stop) = [[0, - 1, - 1]]
   \<and> map finished_routes (scenarios example_one_stop) = [[]]
   \<and> map is_done (scenarios example_one_stop) = [False]
   \<and> \<not> isl (shortest_path_action spec_lib example_one_stop [(- 1, 0)])
   \<and> map finished_routes (scenarios (projr (shortest_path_action spec_lib example_one_stop [(- 1, 0)])))
     = [[[0]]]"
proof -
  have "map current_routes (scenarios (projr (shortest_path_action spec_lib example_fresh [(0, 0)])))
          = [[0, - 1, - 1]]"
    by code_simp
  moreover have "map current_routes (scenarios example_one_stop) = [[0, - 1, - 1]]"
    "map finished_routes (scenarios example_one_stop) = [[]]"
    "map is_done (scenarios example_one_stop) = [False]"
    by (simp_all add: example_one_stop_def example_state_def example_explicit_fields)
  moreover have "\<not> isl (shortest_path_action spec_lib example_one_stop [(- 1, 0)])" by code_simp
  moreover have "map finished_routes
                   (scenarios (projr (shortest_path_action spec_lib example_one_stop [(- 1, 0)])))
                 = [[[0]]]"
    by code_simp
  ultimately show ?thesis by blast
qed

section \<open>The validity check of an action\<close>

lemma get_shortest_path_sequences_state:
  "snd (get_shortest_path_sequences lib s)
     = s\<lparr>shortest_path_sequences := Some (fst (get_shortest_path_sequences lib s))\<rparr>"
  by (cases "shortest_path_sequences s") (simp_all add: get_shortest_path_sequences_def Let_def)

lemma get_shortest_path_sequences_length:
  assumes "case shortest_path_sequences s of None \<Rightarrow> True | Some ps \<Rightarrow> batch_size s \<le> length ps"
  shows "batch_size s \<le> length (fst (get_shortest_path_sequences lib s))"
  using assms
  by (cases "shortest_path_sequences s")
     (simp_all add: get_shortest_path_sequences_def Let_def batch_size_def)

lemma tensor_index_total:
  "- int n \<le> i \<Longrightarrow> i < int n \<Longrightarrow> \<exists>k. tensor_index n i = Inr k"
  by (simp add: tensor_index_def)

lemma gather_new_parts_total:
  assumes "- 1 \<le> fst uv" "fst uv < int M" "0 \<le> snd uv" "snd uv < int M"
  shows "\<exists>np. gather_new_parts M ps uv n = Inr np"
proof -
  from assms have "- int M \<le> fst uv" "- int M \<le> snd uv" by linarith+
  with assms obtain u v where "tensor_index M (fst uv) = Inr u" "tensor_index M (snd uv) = Inr v"
    using tensor_index_total by blast
  then show ?thesis by (simp add: gather_new_parts_def Let_def)
qed

lemma n_stops_le_length: "n_stops xs \<le> length xs"
  by (simp add: n_stops_def)

lemma get_action_masks_total:
  assumes "0 < length (current_routes sc)"
  shows "\<exists>m. get_action_masks sc uv = Inr m"
proof -
  let ?n = "length (current_routes sc)"
  from assms obtain k where k: "tensor_index ?n 0 = Inr k"
    using tensor_index_total [of ?n 0] by auto
  have "- int ?n \<le> int (current_route_n_stops sc) - 1" using assms by linarith
  moreover have "int (current_route_n_stops sc) - 1 < int ?n"
    using n_stops_le_length [of "current_routes sc"] by (simp add: current_route_n_stops_def)
  ultimately obtain l where l: "tensor_index ?n (int (current_route_n_stops sc) - 1) = Inr l"
    using tensor_index_total by blast
  from k l show ?thesis by (simp add: get_action_masks_def row_get_def Let_def)
qed

lemma invalid_action_raises:
  assumes len: "length path_indices = batch_size s"
    and rng: "\<forall>uv\<in>set path_indices. - 1 \<le> fst uv \<and> fst uv < int (max_n_nodes s)
                                   \<and> 0 \<le> snd uv \<and> snd uv < int (max_n_nodes s)"
    and wid: "\<forall>sc\<in>set (scenarios s). 0 < length (current_routes sc)"
    and cache: "case shortest_path_sequences s of None \<Rightarrow> True | Some ps \<Rightarrow> batch_size s \<le> length ps"
    and b: "b < batch_size s"
    and inv: "\<And>m. get_action_masks (scenarios s ! b) (path_indices ! b) = Inr m \<Longrightarrow> \<not> valid_action m"
  shows "shortest_path_action lib s path_indices =
           Inl (AssertionError ''invalid action!'',
                s\<lparr>shortest_path_sequences := Some (fst (get_shortest_path_sequences lib s))\<rparr>)"
proof -
  define M where "M = max_n_nodes s"
  define path_seqs where "path_seqs = fst (get_shortest_path_sequences lib s)"
  define gathered where
    "gathered = map (\<lambda>(sc, ps, uv). gather_new_parts M ps uv (length (current_routes sc)))
                  (zip (scenarios s) (zip path_seqs path_indices))"
  have lps: "batch_size s \<le> length path_seqs"
    unfolding path_seqs_def by (rule get_shortest_path_sequences_length [OF cache])
  have "\<exists>y. x = Inr y" if "x \<in> set gathered" for x
  proof -
    from that obtain p where p: "p \<in> set (zip (scenarios s) (zip path_seqs path_indices))"
      and xp: "x = (case p of (sc, ps, uv) \<Rightarrow> gather_new_parts M ps uv (length (current_routes sc)))"
      unfolding gathered_def by auto
    obtain sc ps uv where pe: "p = (sc, ps, uv)" by (cases p) auto
    from p pe have "(ps, uv) \<in> set (zip path_seqs path_indices)" by (auto dest: set_zip_rightD)
    then have "uv \<in> set path_indices" by (rule set_zip_rightD)
    moreover from xp pe have x: "x = gather_new_parts M ps uv (length (current_routes sc))" by simp
    ultimately have "uv \<in> set path_indices"
      and x: "x = gather_new_parts M ps uv (length (current_routes sc))"
      by blast+
    with rng gather_new_parts_total [of uv M ps] show ?thesis by (auto simp: M_def)
  qed
  then obtain new_parts where np: "collect gathered = Inr new_parts"
    using collect_all_Inr by blast
  have "\<exists>y. x = Inr y" if "x \<in> set (map2 get_action_masks (scenarios s) path_indices)" for x
  proof -
    from that obtain p where p: "p \<in> set (zip (scenarios s) path_indices)"
      and xp: "x = (case p of (sc, uv) \<Rightarrow> get_action_masks sc uv)"
      by auto
    obtain sc uv where pe: "p = (sc, uv)" by (cases p) auto
    from p pe have "sc \<in> set (scenarios s)" by (auto dest: set_zip_leftD)
    moreover from xp pe have "x = get_action_masks sc uv" by simp
    ultimately have "sc \<in> set (scenarios s)" and x: "x = get_action_masks sc uv"
      by blast+
    with wid get_action_masks_total [of sc uv] show ?thesis by auto
  qed
  then obtain masks where masks: "collect (map2 get_action_masks (scenarios s) path_indices) = Inr masks"
    using collect_all_Inr by blast
  from collect_Inr_length [OF masks] len have lm: "length masks = batch_size s"
    by (simp add: batch_size_def)
  from collect_Inr_nth [OF masks, of b] b len
  have "get_action_masks (scenarios s ! b) (path_indices ! b) = Inr (masks ! b)"
    by (simp add: batch_size_def)
  from inv [OF this] b lm have "\<not> list_all valid_action masks"
    by (auto simp: list_all_length)
  moreover from np have "collect (map (\<lambda>p. gather_new_parts (max_n_nodes s) (fst (snd p)) (snd (snd p))
                                  (length (current_routes (fst p))))
                     (zip (scenarios s) (zip (fst (get_shortest_path_sequences lib s)) path_indices)))
                   = Inr new_parts"
    by (simp add: gathered_def split_def M_def path_seqs_def)
  moreover from masks have "collect (map (\<lambda>p. get_action_masks (fst p) (snd p))
                                      (zip (scenarios s) path_indices)) = Inr masks"
    by (simp add: split_def)
  moreover from lps have "\<not> length (fst (get_shortest_path_sequences lib s)) < batch_size s"
    by (simp add: path_seqs_def)
  ultimately show ?thesis
    using len get_shortest_path_sequences_state [of lib s]
    unfolding shortest_path_action_def Let_def split_def
    by simp
qed

text \<open>
  C5, as the code has it.  Let every pair of the batch hold node indices (or the
  sentinel -1 as its first entry), and let every row of current routes be non-empty.
  For a scenario \<open>b\<close> with action (u, v), call the action accepted when u is the
  sentinel, or the scenario has no current route (the first entry of the row is -1),
  or v is the first stop of the current route, or u is its last stop.  If the action
  of \<open>b\<close> is not accepted, the call raises the assertion error "invalid action!" and
  leaves the state as it was, apart from the memoised path sequences; and whenever the
  call returns a state, the action of \<open>b\<close> was accepted.  More than one of the cases
  may hold at once.
\<close>

theorem C5_action_accepted_iff_some_case_holds:
  assumes "length path_indices = batch_size s"
    and "\<forall>uv\<in>set path_indices. - 1 \<le> fst uv \<and> fst uv < int (max_n_nodes s)
                                   \<and> 0 \<le> snd uv \<and> snd uv < int (max_n_nodes s)"
    and "\<forall>sc\<in>set (scenarios s). 0 < length (current_routes sc)"
    and "case shortest_path_sequences s of None \<Rightarrow> True | Some ps \<Rightarrow> batch_size s \<le> length ps"
    and "b < batch_size s"
  shows "(let cur = current_routes (scenarios s ! b);
              u = fst (path_indices ! b);
              v = snd (path_indices ! b);
              last_stop = (if n_stops cur = 0 then cur ! (length cur - 1) else cur ! (n_stops cur - 1));
              accepted = (u = - 1 \<or> cur ! 0 = - 1 \<or> v = cur ! 0 \<or> u = last_stop)
          in (\<not> accepted \<longrightarrow>
                shortest_path_action lib s path_indices =
                  Inl (AssertionError ''invalid action!'',
                       s\<lparr>shortest_path_sequences := Some (fst (get_shortest_path_sequences lib s))\<rparr>))
           \<and> (\<forall>s'. shortest_path_action lib s path_indices = Inr s' \<longrightarrow> accepted))"
proof -
  let ?sc = "scenarios s ! b"
  let ?cur = "current_routes ?sc"
  let ?u = "fst (path_indices ! b)"
  let ?v = "snd (path_indices ! b)"
  let ?last = "if n_stops ?cur = 0 then ?cur ! (length ?cur - 1) else ?cur ! (n_stops ?cur - 1)"
  let ?accepted = "?u = - 1 \<or> ?cur ! 0 = - 1 \<or> ?v = ?cur ! 0 \<or> ?u = ?last"
  have va: "valid_action m = ?accepted" if "get_action_masks ?sc (path_indices ! b) = Inr m" for m
    using get_action_masks_Inr [OF that]
    by (auto simp: valid_action_def current_route_n_stops_def)
  have 1: "shortest_path_action lib s path_indices =
             Inl (AssertionError ''invalid action!'',
                  s\<lparr>shortest_path_sequences := Some (fst (get_shortest_path_sequences lib s))\<rparr>)"
    if "\<not> ?accepted"
    using that va by (intro invalid_action_raises [OF assms]) blast
  have 2: "?accepted" if "shortest_path_action lib s path_indices = Inr s'" for s'
  proof -
    from shortest_path_action_Inr [OF that] obtain masks where
      lp: "length path_indices = batch_size s"
      and masks: "collect (map2 get_action_masks (scenarios s) path_indices) = Inr masks"
      and lm: "length masks = batch_size s"
      and valid: "list_all valid_action masks"
      by blast
    from collect_Inr_nth [OF masks, of b] assms(5) lp
    have "get_action_masks ?sc (path_indices ! b) = Inr (masks ! b)"
      by (simp add: batch_size_def)
    from va [OF this] valid assms(5) lm show ?thesis
      by (simp add: list_all_length)
  qed
  from 1 2 show ?thesis unfolding Let_def by blast
qed

theorem C5_action_accepted_iff_some_case_holds_witness:
  "current_routes (scenarios example_two_stops ! 0) = [0, 1, - 1]
   \<and> shortest_path_action spec_lib example_two_stops [(2, 2)] =
       Inl (AssertionError ''invalid action!'',
            example_two_stops\<lparr>shortest_path_sequences :=
              Some (fst (get_shortest_path_sequences spec_lib example_two_stops))\<rparr>)
   \<and> scenarios (example_two_stops\<lparr>shortest_path_sequences :=
              Some (fst (get_shortest_path_sequences spec_lib example_two_stops))\<rparr>)
       = scenarios example_two_stops"
proof -
  have cur: "current_routes (scenarios example_two_stops ! 0) = [0, 1, - 1]"
    by (simp add: example_two_stops_def example_explicit_fields)
  have h: "length [(2 :: int, 2 :: int)] = batch_size example_two_stops"
    "\<forall>uv\<in>set [(2 :: int, 2 :: int)]. - 1 \<le> fst uv \<and> fst uv < int (max_n_nodes example_two_stops)
                                   \<and> 0 \<le> snd uv \<and> snd uv < int (max_n_nodes example_two_stops)"
    "\<forall>sc\<in>set (scenarios example_two_stops). 0 < length (current_routes sc)"
    "case shortest_path_sequences example_two_stops of None \<Rightarrow> True
     | Some ps \<Rightarrow> batch_size example_two_stops \<le> length ps"
    "0 < batch_size example_two_stops"
    by (simp_all add: example_two_stops_def example_explicit_fields)
       (simp_all add: example_state_def example_scenario_def)
  from C5_action_accepted_iff_some_case_holds [OF h, of spec_lib] cur
  have "shortest_path_action spec_lib example_two_stops [(2, 2)] =
       Inl (AssertionError ''invalid action!'',
            example_two_stops\<lparr>shortest_path_sequences :=
              Some (fst (get_shortest_path_sequences spec_lib example_two_stops))\<rparr>)"
    by (simp add: Let_def n_stops_def)
  with cur show ?thesis by simp
qed

text \<open>
  The claim has an action succeed only when exactly one of the three cases holds.
  With the stops 0, 1 in progress the action (1, 0) ends at the first stop and starts
  at the last stop; the call returns, and the path from 1 to 0 is put in front of
  the current route.
\<close>

theorem C5_action_with_two_cases_succeeds:
  "map current_routes (scenarios example_two_stops) = [[0, 1, - 1]]
   \<and> \<not> isl (shortest_path_action spec_lib example_two_stops [(1, 0)])
   \<and> map current_routes (scenarios (projr (shortest_path_action spec_lib example_two_stops [(1, 0)])))
       = [[1, 0, 1]]"
proof -
  have "map current_routes (scenarios example_two_stops) = [[0, 1, - 1]]"
    by (simp add: example_two_stops_def example_state_def example_explicit_fields)
  moreover have "\<not> isl (shortest_path_action spec_lib example_two_stops [(1, 0)])" by code_simp
  moreover have "map current_routes
                   (scenarios (projr (shortest_path_action spec_lib example_two_stops [(1, 0)])))
                 = [[1, 0, 1]]"
    by code_simp
  ultimately show ?thesis by blast
qed

section \<open>The sentinel on a scenario without a route in progress\<close>

lemma update_transit_cong:
  assumes "route_mat a = route_mat b" and "transfer_time_s a = transfer_time_s b"
  shows "transit_times (update_transit lib M a) = transit_times (update_transit lib M b)"
    and "has_path (update_transit lib M a) = has_path (update_transit lib M b)"
  using assms by (simp_all add: update_transit_def Let_def split_def)

lemma update_transit_route_mat:
  "route_mat (update_transit lib M sc) = route_mat sc"
  "transfer_time_s (update_transit lib M sc) = transfer_time_s sc"
  by (simp_all add: update_transit_def Let_def split_def)

lemma refresh_scenario_transit_times:
  assumes "route_mat a = route_mat (refresh_scenario lib M symm f1 f2 sc upd)"
    and "transfer_time_s a = transfer_time_s sc"
  shows "transit_times (refresh_scenario lib M symm f1 f2 sc upd) =
           transit_times (update_transit lib M a)"
    and "has_path (refresh_scenario lib M symm f1 f2 sc upd) =
           has_path (update_transit lib M a)"
proof -
  define sc1 where "sc1 = mark_scenario M (merge_route_mat lib M symm sc upd)"
  define sc2 where "sc2 = sc1\<lparr>valid_terms_mat := update_valid_terms_mat M symm f1 f2 sc1\<rparr>"
  have r: "refresh_scenario lib M symm f1 f2 sc upd = update_transit lib M sc2"
    by (simp add: refresh_scenario_def Let_def sc1_def sc2_def)
  have "transfer_time_s sc2 = transfer_time_s sc"
    by (simp add: sc2_def sc1_def mark_scenario_def merge_route_mat_def Let_def)
  moreover have "route_mat sc2 = route_mat (refresh_scenario lib M symm f1 f2 sc upd)"
    unfolding r by (simp add: update_transit_route_mat)
  ultimately show "transit_times (refresh_scenario lib M symm f1 f2 sc upd) =
           transit_times (update_transit lib M a)"
    and "has_path (refresh_scenario lib M symm f1 f2 sc upd) =
           has_path (update_transit lib M a)"
    unfolding r using assms by (intro update_transit_cong; simp add: r)+
qed


lemma refresh_up_to_date:
  assumes "update_on_routes lib s upd f1 f2 = Inr s'" and "b < batch_size s"
  shows "up_to_date lib s' b"
proof -
  define M where "M = max_n_nodes s"
  define sc where "sc = refresh_scenario lib M (symmetric_routes s) f1 f2 (scenarios s ! b) (upd ! b)"
  have sc': "scenarios s' ! b = sc" "max_n_nodes s' = M" "symmetric_routes s' = symmetric_routes s"
    using update_on_routes_nth [OF assms] update_on_routes_sizes(2) [OF assms(1)]
      update_on_routes_scenarios(3) [OF assms(1)]
    by (simp_all add: sc_def M_def)
  have "transit_times sc = transit_times (update_transit lib M sc)"
    unfolding sc_def
    by (rule refresh_scenario_transit_times) simp_all
  moreover have "has_path sc = has_path (update_transit lib M sc)"
    unfolding sc_def
    by (rule refresh_scenario_transit_times) simp_all
  moreover have "symmetric_routes s \<longrightarrow> valid_terms_mat sc i j = valid_terms_mat sc j i" for i j
    unfolding sc_def
    by (auto simp: refresh_scenario_def update_transit_def mark_scenario_def merge_route_mat_def
                   update_valid_terms_mat_def transpose_mat_def Let_def split_def)
  ultimately show ?thesis
    unfolding up_to_date_def Let_def sc' by simp
qed











section \<open>Properties of the duplicate-route check\<close>

lemma same_stops_refl: "list_all id (same_stops r r)"
  by (auto simp: same_stops_def list_all_iff zip_same)

lemma routes_are_identical_diag:
  assumes "r \<in> set rs"
  shows "list_ex id (map (list_ex id) (routes_are_identical rs))"
proof -
  have "list_ex id (map (\<lambda>r2. list_all id (same_stops r r2)) rs)"
    using assms same_stops_refl by (auto simp: list_ex_iff)
  then show ?thesis
    using assms by (auto simp: routes_are_identical_def list_ex_iff)
qed

lemma check_for_duplicate_routes_nonempty:
  "check_for_duplicate_routes routes_tensor = map (\<lambda>rs. rs \<noteq> []) routes_tensor"
proof -
  have "list_ex id (map (list_ex id) (routes_are_identical rs)) = (rs \<noteq> [])" for rs
  proof (cases rs)
    case Nil
    then show ?thesis by (simp add: routes_are_identical_def)
  next
    case (Cons r rest)
    then have "r \<in> set rs" by simp
    from routes_are_identical_diag [OF this] Cons show ?thesis by simp
  qed
  then show ?thesis by (simp add: check_for_duplicate_routes_def)
qed

text \<open>
  C9.  The claim: the check reports true for a scenario exactly when two of its routes
  are stop-for-stop identical; true for routes [0,1,2] and [0,1,2], false for routes
  [0,1,2] and [2,1,0].  The code compares every route with itself as well, so on a
  batch of two scenarios, the first with the identical pair and the second with the
  route and its reverse, it reports true for both.
\<close>

theorem C9_duplicate_check_flags_distinct_routes:
  "check_for_duplicate_routes [[[0, 1, 2], [0, 1, 2]], [[0, 1, 2], [2, 1, 0]]] = [True, True]"
  by (simp add: check_for_duplicate_routes_def routes_are_identical_def same_stops_def)

end
